theory Spec2Isabelle
  imports Complex_Main
begin

section \<open>Python strings\<close>

text \<open>
  A Python \<^verbatim>\<open>str\<close> is a sequence of Unicode code points, and \<^verbatim>\<open>len\<close> counts code points.
  The model keeps that: a string is a list of code points, each a natural number. The
  Persian literals of the source are written out as their code points.
\<close>

type_synonym pystr = "nat list"

text \<open>An ASCII literal of the source, as code points.\<close>

definition ascii :: "string \<Rightarrow> pystr" where
  "ascii s = map of_char s"

text \<open>
  The characters \<^verbatim>\<open>str.isspace\<close>, \<^verbatim>\<open>str.strip()\<close>, \<^verbatim>\<open>str.split()\<close> and the pattern
  \<^verbatim>\<open>\s\<close> of the \<^verbatim>\<open>re\<close> module treat as whitespace: the code points of bidirectional class
  WS, B or S and of category Zs.
\<close>

definition isspace :: "nat \<Rightarrow> bool" where
  "isspace c \<longleftrightarrow>
     (9 \<le> c \<and> c \<le> 13) \<or> (28 \<le> c \<and> c \<le> 32) \<or> c = 133 \<or> c = 160 \<or> c = 5760 \<or>
     (8192 \<le> c \<and> c \<le> 8202) \<or> c = 8232 \<or> c = 8233 \<or> c = 8239 \<or> c = 8287 \<or> c = 12288"

text \<open>\<^verbatim>\<open>s.strip()\<close>: leading and trailing whitespace removed.\<close>

definition rstrip :: "pystr \<Rightarrow> pystr" where
  "rstrip s = rev (dropWhile isspace (rev s))"

definition strip :: "pystr \<Rightarrow> pystr" where
  "strip s = rstrip (dropWhile isspace s)"

text \<open>\<^verbatim>\<open>str(n)\<close> for an integer: its decimal numeral, with a minus sign when negative.\<close>

fun str_nat :: "nat \<Rightarrow> pystr" where
  "str_nat n = (if n < 10 then [48 + n] else str_nat (n div 10) @ [48 + n mod 10])"

declare str_nat.simps [simp del]

definition str_int :: "int \<Rightarrow> pystr" where
  "str_int i = (if i < 0 then 45 # str_nat (nat (- i)) else str_nat (nat i))"

section \<open>Errors of the external services\<close>

text \<open>
  The store, the embedding service and the language model are reached through client
  libraries whose calls either return or raise. An outcome is a value of \<open>exn + 'a\<close>;
  \<open>Inl\<close> is a raised exception. The exceptions modelled are the instances of Python's
  \<^verbatim>\<open>Exception\<close> (client, network, quota, validation, key and index errors), the ones an
  \<^verbatim>\<open>except Exception\<close> clause catches.
\<close>

datatype exn = StoreError | EmbeddingError | ModelError | JSONDecodeError | KeyError
  | IndexError | ValueError

section \<open>Configuration (config.py)\<close>

record settings =
  rate_limit_per_day :: int
  conversation_memory_size :: int

text \<open>The bounds the \<^verbatim>\<open>Field\<close> declarations put on the two values when the settings load.\<close>

definition valid_settings :: "settings \<Rightarrow> bool" where
  "valid_settings s \<longleftrightarrow>
     1 \<le> rate_limit_per_day s \<and> rate_limit_per_day s \<le> 1000 \<and>
     1 \<le> conversation_memory_size s \<and> conversation_memory_size s \<le> 50"

section \<open>Usage log and rate limiter (repositories.py, rate\_limiter.py)\<close>

record usage_log_create =
  telegram_id :: int
  message_text :: "pystr option"

record usage_log = usage_log_create +
  created_at :: nat

text \<open>
  Time is counted in microseconds since the epoch, in UTC. One call of the store client
  is described by the moment it happens and by whether the store answers it: when it
  does not, \<^verbatim>\<open>execute()\<close> raises.
\<close>

record call =
  at_time :: nat
  ok :: bool

definition usec_per_day :: nat where
  "usec_per_day = 86400000000"

text \<open>\<^verbatim>\<open>datetime.now(timezone.utc).replace(hour=0, minute=0, second=0, microsecond=0)\<close>\<close>

definition today_start :: "nat \<Rightarrow> nat" where
  "today_start now = now - now mod usec_per_day"

text \<open>
  The query \<^verbatim>\<open>select("id", count="exact").eq("telegram_id", uid).gte("created_at", since)\<close>
  on the table \<^verbatim>\<open>usage_logs\<close>.
\<close>

definition execute_count :: "call \<Rightarrow> usage_log list \<Rightarrow> int \<Rightarrow> nat \<Rightarrow> exn + nat" where
  "execute_count c tbl uid since =
     (if ok c
      then Inr (length (filter (\<lambda>r. telegram_id r = uid \<and> since \<le> created_at r) tbl))
      else Inl StoreError)"

text \<open>
  The insert into \<^verbatim>\<open>usage_logs\<close>. The table is append-only and the store stamps the new
  row with the time of the insert (the column default; the schema is not part of the
  sources).
\<close>

definition execute_insert ::
  "call \<Rightarrow> usage_log list \<Rightarrow> usage_log_create \<Rightarrow> exn + (usage_log list \<times> usage_log)" where
  "execute_insert c tbl d =
     (if ok c
      then (let row = \<lparr>telegram_id = telegram_id d, message_text = message_text d,
                        created_at = at_time c\<rparr>
            in Inr (tbl @ [row], row))
      else Inl StoreError)"

definition get_today_count :: "call \<Rightarrow> usage_log list \<Rightarrow> int \<Rightarrow> int" where
  "get_today_count c tbl uid =
     (case execute_count c tbl uid (today_start (at_time c)) of
        Inr n \<Rightarrow> int n
      | Inl e \<Rightarrow> 0)"

definition log_usage ::
  "call \<Rightarrow> usage_log list \<Rightarrow> usage_log_create \<Rightarrow> usage_log list \<times> usage_log option" where
  "log_usage c tbl d =
     (case execute_insert c tbl d of
        Inr (tbl', row) \<Rightarrow> (tbl', Some row)
      | Inl e \<Rightarrow> (tbl, None))"

definition is_rate_limited :: "settings \<Rightarrow> call \<Rightarrow> usage_log list \<Rightarrow> int \<Rightarrow> bool" where
  "is_rate_limited s c tbl uid \<longleftrightarrow> get_today_count c tbl uid \<ge> rate_limit_per_day s"

definition get_remaining_messages :: "settings \<Rightarrow> call \<Rightarrow> usage_log list \<Rightarrow> int \<Rightarrow> int" where
  "get_remaining_messages s c tbl uid = max 0 (rate_limit_per_day s - get_today_count c tbl uid)"

record rate_limiter =
  limit :: int

definition RateLimiter_init :: "settings \<Rightarrow> rate_limiter" where
  "RateLimiter_init s = \<lparr>limit = rate_limit_per_day s\<rparr>"

text \<open>The message of a rejection: a Persian sentence around the daily limit.\<close>

definition exhausted_message :: "int \<Rightarrow> pystr" where
  "exhausted_message n =
     [9200, 32, 1588, 1605, 1575, 32, 1576, 1607, 32, 1581, 1583, 32, 1605, 1580, 1575,
      1586, 32, 1575, 1587, 1578, 1601, 1575, 1583, 1607, 32, 1585, 1608, 1586, 1575,
      1606, 1607, 32, 40]
     @ str_int n @
     [32, 1662, 1740, 1575, 1605, 41, 32, 1585, 1587, 1740, 1583, 1607, 8204, 1575, 1740,
      1583, 46, 10, 10, 1604, 1591, 1601, 1575, 1611, 32, 1601, 1585, 1583, 1575, 32,
      1583, 1608, 1576, 1575, 1585, 1607, 32, 1578, 1604, 1575, 1588, 32, 1705, 1606,
      1740, 1583, 46]"

text \<open>\<^verbatim>\<open>message_text[:500] if message_text else None\<close>\<close>

definition excerpt :: "pystr option \<Rightarrow> pystr option" where
  "excerpt m = (case m of None \<Rightarrow> None | Some t \<Rightarrow> if t = [] then None else Some (take 500 t))"

text \<open>
  \<^verbatim>\<open>check_and_log\<close> calls the store three times: the count of \<^verbatim>\<open>is_rate_limited\<close>, the
  insert of \<^verbatim>\<open>log_usage\<close> and the count of \<^verbatim>\<open>get_remaining_messages\<close>. It returns the
  table as it leaves it, and the triple of the source.
\<close>

definition check_and_log ::
  "settings \<Rightarrow> rate_limiter \<Rightarrow> call \<Rightarrow> call \<Rightarrow> call \<Rightarrow> usage_log list \<Rightarrow> int \<Rightarrow> pystr option
     \<Rightarrow> usage_log list \<times> (bool \<times> pystr \<times> int)" where
  "check_and_log s self c1 c2 c3 tbl uid msg =
     (if is_rate_limited s c1 tbl uid
      then (tbl, (False, exhausted_message (limit self), 0))
      else (let (tbl', logged) =
                  log_usage c2 tbl \<lparr>telegram_id = uid, message_text = excerpt msg\<rparr>;
                remaining = get_remaining_messages s c3 tbl' uid
            in (tbl', (True, [], remaining))))"

definition get_status ::
  "rate_limiter \<Rightarrow> call \<Rightarrow> usage_log list \<Rightarrow> int \<Rightarrow> int \<times> int" where
  "get_status self c tbl uid =
     (let used = get_today_count c tbl uid in (used, max 0 (limit self - used)))"







text \<open>A configuration and three requests of one user on UTC day 2, used as examples.\<close>

definition demo_settings :: settings where
  "demo_settings = \<lparr>rate_limit_per_day = 2, conversation_memory_size = 5\<rparr>"




section \<open>Floating-point values\<close>

text \<open>
  A Python \<^verbatim>\<open>float\<close> is a binary64 value: a finite rational, an infinity or a NaN (the sign
  of a zero is not kept, nothing here depends on it).
\<close>

datatype pyfloat = Finite rat | PosInf | NegInf | NaN

text \<open>A comparison of an \<^verbatim>\<open>int\<close> with a \<^verbatim>\<open>float\<close> compares the exact values.\<close>

definition int_le_float :: "int \<Rightarrow> pyfloat \<Rightarrow> bool" where
  "int_le_float i f = (case f of Finite r \<Rightarrow> of_int i \<le> r | PosInf \<Rightarrow> True | _ \<Rightarrow> False)"

definition float_le_int :: "pyfloat \<Rightarrow> int \<Rightarrow> bool" where
  "float_le_int f i = (case f of Finite r \<Rightarrow> r \<le> of_int i | NegInf \<Rightarrow> True | _ \<Rightarrow> False)"

text \<open>
  \<open>binary64 n d\<close> is the binary64 value nearest to the fraction \<open>n / d\<close> (with \<open>d > 0\<close>), ties
  to the even significand: what a float literal and \<^verbatim>\<open>float(s)\<close> of a decimal numeral
  denote. The exponent \<open>e\<close> with \<open>2^e \<le> |n| / d < 2^(e+1)\<close> is found from the bit lengths of
  numerator and denominator; the significand has 53 bits, fewer below \<open>2^-1022\<close>; a
  result of \<open>2^1024\<close> or more is an infinity.
\<close>

fun bitlen :: "nat \<Rightarrow> nat" where
  "bitlen n = (if n = 0 then 0 else Suc (bitlen (n div 2)))"

declare bitlen.simps [simp del]

definition pow2 :: "int \<Rightarrow> rat" where
  "pow2 e = (if 0 \<le> e then 2 ^ nat e else 1 / 2 ^ nat (- e))"

text \<open>\<open>scaled a d k\<close> is the fraction \<open>(a / d) / 2^k\<close> as a pair of naturals.\<close>

definition scaled :: "nat \<Rightarrow> nat \<Rightarrow> int \<Rightarrow> nat \<times> nat" where
  "scaled a d k = (if 0 \<le> k then (a, d * 2 ^ nat k) else (a * 2 ^ nat (- k), d))"

definition floor_log2 :: "nat \<Rightarrow> nat \<Rightarrow> int" where
  "floor_log2 a d =
     (let e = int (bitlen a) - int (bitlen d);
          (num, den) = scaled a d e
      in if den \<le> num then e else e - 1)"

definition round_half_even :: "nat \<Rightarrow> nat \<Rightarrow> nat" where
  "round_half_even num den =
     (let q = num div den; r = num mod den
      in if 2 * r < den then q else if den < 2 * r then q + 1
         else if even q then q else q + 1)"

definition binary64 :: "int \<Rightarrow> nat \<Rightarrow> pyfloat" where
  "binary64 n d =
     (if n = 0 then Finite 0
      else (let a = nat \<bar>n\<bar>;
                e = max (floor_log2 a d) (- 1022);
                (num, den) = scaled a d (e - 52);
                v = of_nat (round_half_even num den) * pow2 (e - 52)
            in if pow2 1024 \<le> v then (if 0 < n then PosInf else NegInf)
               else Finite (if 0 < n then v else - v)))"

section \<open>Knowledge base service (models.py, knowledge\_base.py)\<close>

record knowledge_search_result =
  content :: pystr
  metadata :: "pystr \<rightharpoonup> pystr"
  similarity :: pyfloat

text \<open>\<^verbatim>\<open>sep.join(parts)\<close>\<close>

fun join :: "pystr \<Rightarrow> pystr list \<Rightarrow> pystr" where
  "join sep [] = []"
| "join sep [x] = x"
| "join sep (x # y # ys) = x @ sep @ join sep (y # ys)"

text \<open>
  The text of one result inside the loop of \<^verbatim>\<open>format_context\<close>: the stripped content,
  after the line \<^verbatim>\<open>[<manba>: source]\<close> (the Persian word for source) when the metadata
  hold a non-empty source.
\<close>

definition labelled :: "knowledge_search_result \<Rightarrow> pystr" where
  "labelled r =
     (let c = strip (content r);
          source = (case metadata r (ascii ''source'') of None \<Rightarrow> [] | Some v \<Rightarrow> v)
      in if source \<noteq> [] then [91, 1605, 1606, 1576, 1593, 58, 32] @ source @ [93, 10] @ c
         else c)"

text \<open>
  The loop of \<^verbatim>\<open>format_context\<close> over the results still to visit, with the parts collected
  and the running \<^verbatim>\<open>total_length\<close>. The \<^verbatim>\<open>break\<close> ends the recursion.
\<close>

fun format_loop ::
  "int \<Rightarrow> knowledge_search_result list \<Rightarrow> pystr list \<Rightarrow> int \<Rightarrow> pystr list" where
  "format_loop max_length [] context_parts total_length = context_parts"
| "format_loop max_length (r # rs) context_parts total_length =
     (let c = labelled r
      in if total_length + int (length c) > max_length
         then (let remaining = max_length - total_length
               in if remaining > 100
                  then context_parts @ [take (nat remaining) c @ ascii ''...'']
                  else context_parts)
         else format_loop max_length rs (context_parts @ [c])
                (total_length + int (length c) + 10))"

definition separator :: pystr where
  "separator = [10, 10, 45, 45, 45, 10, 10]"

definition format_context :: "knowledge_search_result list \<Rightarrow> int \<Rightarrow> pystr" where
  "format_context results max_length =
     (if results = [] then [] else join separator (format_loop max_length results [] 0))"


text \<open>A result without metadata, used in examples.\<close>

definition plain_result :: "pystr \<Rightarrow> knowledge_search_result" where
  "plain_result c = \<lparr>content = c, metadata = Map.empty, similarity = Finite 1\<rparr>"

section \<open>External services\<close>

text \<open>
  What the code reaches outside itself, as functions a run is given:
  \<^item> \<open>embeddings_create\<close>: the embedding call; the \<^verbatim>\<open>data\<close> of its response, one vector each;
  \<^item> \<open>match_knowledge\<close>: the store's similarity search, from the query vector, the
    threshold and the count to the rows of the response;
  \<^item> \<open>completions_create\<close>: the language model, from the messages and whether the tools
    are offered to the \<^verbatim>\<open>choices\<close> of its response;
  \<^item> \<open>json_loads\<close>, \<open>json_dumps\<close> and \<open>format_2f\<close>: \<^verbatim>\<open>json.loads\<close> on the arguments of a tool
    call, \<^verbatim>\<open>json.dumps\<close> on a location and the format \<^verbatim>\<open>:.2f\<close> of a float;
  \<^item> \<open>decimal_value\<close>: the runtime's table of Unicode decimal digits with their values,
    which the pattern \<^verbatim>\<open>\d\<close> and \<^verbatim>\<open>float()\<close> consult.
  A row of the search response is a dictionary; a key may be missing.
\<close>

record knowledge_row =
  row_content :: "pystr option"
  row_metadata :: "(pystr \<rightharpoonup> pystr) option"
  row_similarity :: "pyfloat option"

record tool_call =
  call_id :: pystr
  function_name :: pystr
  function_arguments :: pystr

record assistant_message =
  message_content :: "pystr option"
  tool_calls :: "tool_call list"

text \<open>
  An entry of the message list: the system prompt (the constant \<^verbatim>\<open>SYSTEM_PROMPT\<close>, whose
  text nothing depends on), a role with a content, the assistant message of the first
  answer, or the result of a tool call.
\<close>

datatype message =
  System
  | Entry pystr pystr
  | Assistant assistant_message
  | ToolResult pystr pystr

record env =
  embeddings_create :: "pystr \<Rightarrow> exn + pyfloat list list"
  match_knowledge :: "pyfloat list \<Rightarrow> pyfloat \<Rightarrow> int \<Rightarrow> exn + knowledge_row list"
  completions_create :: "message list \<Rightarrow> bool \<Rightarrow> exn + assistant_message list"
  json_loads :: "pystr \<Rightarrow> exn + (pystr \<rightharpoonup> pystr)"
  json_dumps :: "pyfloat \<times> pyfloat \<Rightarrow> pystr"
  format_2f :: "pyfloat \<Rightarrow> pystr"
  decimal_value :: "nat \<Rightarrow> nat option"

section \<open>Knowledge search (repositories.py, knowledge\_base.py)\<close>

text \<open>
  Each function whose body is a \<^verbatim>\<open>try\<close> block comes in two parts: the body, which may
  raise, and the function, which applies the \<^verbatim>\<open>except Exception\<close> handler to it.
\<close>

text \<open>\<^verbatim>\<open>KnowledgeSearchResult(content=item["content"], ...)\<close> for one row.\<close>

definition to_result :: "knowledge_row \<Rightarrow> exn + knowledge_search_result" where
  "to_result item =
     (case row_content item of
        None \<Rightarrow> Inl KeyError
      | Some c \<Rightarrow>
          (case row_similarity item of
             None \<Rightarrow> Inl KeyError
           | Some s \<Rightarrow>
               Inr \<lparr>content = c,
                    metadata = (case row_metadata item of None \<Rightarrow> Map.empty | Some m \<Rightarrow> m),
                    similarity = s\<rparr>))"

fun to_results :: "knowledge_row list \<Rightarrow> exn + knowledge_search_result list" where
  "to_results [] = Inr []"
| "to_results (item # items) =
     (case to_result item of
        Inl e \<Rightarrow> Inl e
      | Inr r \<Rightarrow> (case to_results items of Inl e \<Rightarrow> Inl e | Inr rs \<Rightarrow> Inr (r # rs)))"

definition repository_search_try ::
  "env \<Rightarrow> pyfloat list \<Rightarrow> int \<Rightarrow> pyfloat \<Rightarrow> exn + knowledge_search_result list" where
  "repository_search_try ev query_embedding match_count similarity_threshold =
     (case match_knowledge ev query_embedding similarity_threshold match_count of
        Inl e \<Rightarrow> Inl e
      | Inr data \<Rightarrow> if data \<noteq> [] then to_results data else Inr [])"

definition repository_search ::
  "env \<Rightarrow> pyfloat list \<Rightarrow> int \<Rightarrow> pyfloat \<Rightarrow> knowledge_search_result list" where
  "repository_search ev query_embedding match_count similarity_threshold =
     (case repository_search_try ev query_embedding match_count similarity_threshold of
        Inl e \<Rightarrow> []
      | Inr rs \<Rightarrow> rs)"

text \<open>\<^verbatim>\<open>_get_embedding\<close>: \<^verbatim>\<open>response.data[0].embedding\<close>, or \<^verbatim>\<open>None\<close> when anything raised.\<close>

definition get_embedding_try :: "env \<Rightarrow> pystr \<Rightarrow> exn + pyfloat list" where
  "get_embedding_try ev t =
     (case embeddings_create ev t of
        Inl e \<Rightarrow> Inl e
      | Inr data \<Rightarrow> (case data of [] \<Rightarrow> Inl IndexError | v # _ \<Rightarrow> Inr v))"

definition get_embedding :: "env \<Rightarrow> pystr \<Rightarrow> pyfloat list option" where
  "get_embedding ev t = (case get_embedding_try ev t of Inl e \<Rightarrow> None | Inr v \<Rightarrow> Some v)"

text \<open>\<^verbatim>\<open>KnowledgeBaseService.search\<close>; \<^verbatim>\<open>not query_embedding\<close> holds of \<^verbatim>\<open>None\<close> and of \<^verbatim>\<open>[]\<close>.\<close>

definition search_try ::
  "env \<Rightarrow> pystr \<Rightarrow> int \<Rightarrow> pyfloat \<Rightarrow> exn + knowledge_search_result list" where
  "search_try ev query match_count similarity_threshold =
     (case get_embedding ev query of
        None \<Rightarrow> Inr []
      | Some query_embedding \<Rightarrow>
          if query_embedding = [] then Inr []
          else Inr (repository_search ev query_embedding match_count similarity_threshold))"

definition search :: "env \<Rightarrow> pystr \<Rightarrow> int \<Rightarrow> pyfloat \<Rightarrow> knowledge_search_result list" where
  "search ev query match_count similarity_threshold =
     (case search_try ev query match_count similarity_threshold of Inl e \<Rightarrow> [] | Inr rs \<Rightarrow> rs)"

text \<open>The default \<^verbatim>\<open>similarity_threshold=0.3\<close> of \<^verbatim>\<open>search\<close>.\<close>

definition default_threshold :: pyfloat where
  "default_threshold = binary64 3 10"

section \<open>Authentication service (auth.py)\<close>

text \<open>
  The bilingual messages of the service, as the code points of the source's literals. The
  English half of each is quoted above it.
\<close>

text \<open>\<^verbatim>\<open>You are already registered!\<close>\<close>

definition msg_already_registered :: pystr where
  "msg_already_registered =
     [1588, 1605, 1575, 32, 1602, 1576, 1604, 1575, 1611, 32, 1579, 1576, 1578, 8204,
     1606, 1575, 1605, 32, 1705, 1585, 1583, 1607, 8204, 1575, 1740, 1583, 33, 32,
     127891, 10, 10, 9472, 9472, 9472, 9472, 9472, 10, 10, 89, 111, 117, 32, 97, 114,
     101, 32, 97, 108, 114, 101, 97, 100, 121, 32, 114, 101, 103, 105, 115, 116, 101,
     114, 101, 100, 33, 32, 127891]"

text \<open>\<^verbatim>\<open>This student ID is already registered with another account!  If this is your ID and you have issues, please contact support.\<close>\<close>

definition msg_code_taken :: pystr where
  "msg_code_taken =
     [10060, 32, 1575, 1740, 1606, 32, 1588, 1605, 1575, 1585, 1607, 32, 1583, 1575,
     1606, 1588, 1580, 1608, 1740, 1740, 32, 1602, 1576, 1604, 1575, 1611, 32, 1576,
     1575, 32, 1740, 1705, 32, 1581, 1587, 1575, 1576, 32, 1583, 1740, 1711, 1585, 32,
     1579, 1576, 1578, 32, 1588, 1583, 1607, 33, 10, 10, 1575, 1711, 1585, 32, 1575,
     1740, 1606, 32, 1588, 1605, 1575, 1585, 1607, 32, 1605, 1578, 1593, 1604, 1602, 32,
     1576, 1607, 32, 1588, 1605, 1575, 1587, 1578, 32, 1608, 32, 1605, 1588, 1705, 1604,
     1740, 32, 1583, 1575, 1585, 1740, 1583, 1548, 32, 1576, 1575, 32, 1662, 1588, 1578,
     1740, 1576, 1575, 1606, 1740, 32, 1578, 1605, 1575, 1587, 32, 1576, 1711, 1740,
     1585, 1740, 1583, 46, 10, 10, 9472, 9472, 9472, 9472, 9472, 10, 10, 10060, 32, 84,
     104, 105, 115, 32, 115, 116, 117, 100, 101, 110, 116, 32, 73, 68, 32, 105, 115, 32,
     97, 108, 114, 101, 97, 100, 121, 32, 114, 101, 103, 105, 115, 116, 101, 114, 101,
     100, 32, 119, 105, 116, 104, 32, 97, 110, 111, 116, 104, 101, 114, 32, 97, 99, 99,
     111, 117, 110, 116, 33, 10, 10, 73, 102, 32, 116, 104, 105, 115, 32, 105, 115, 32,
     121, 111, 117, 114, 32, 73, 68, 32, 97, 110, 100, 32, 121, 111, 117, 32, 104, 97,
     118, 101, 32, 105, 115, 115, 117, 101, 115, 44, 32, 112, 108, 101, 97, 115, 101,
     32, 99, 111, 110, 116, 97, 99, 116, 32, 115, 117, 112, 112, 111, 114, 116, 46]"

text \<open>\<^verbatim>\<open>Registration error. Please try again.\<close>\<close>

definition msg_registration_error :: pystr where
  "msg_registration_error =
     [10060, 32, 1582, 1591, 1575, 32, 1583, 1585, 32, 1579, 1576, 1578, 8204, 1606,
     1575, 1605, 46, 32, 1604, 1591, 1601, 1575, 1611, 32, 1583, 1608, 1576, 1575, 1585,
     1607, 32, 1578, 1604, 1575, 1588, 32, 1705, 1606, 1740, 1583, 46, 10, 10, 9472,
     9472, 9472, 9472, 9472, 10, 10, 10060, 32, 82, 101, 103, 105, 115, 116, 114, 97,
     116, 105, 111, 110, 32, 101, 114, 114, 111, 114, 46, 32, 80, 108, 101, 97, 115,
     101, 32, 116, 114, 121, 32, 97, 103, 97, 105, 110, 46]"

text \<open>\<^verbatim>\<open>Please enter your student ID.  Example: /login 4022020030\<close>\<close>

definition msg_enter_code :: pystr where
  "msg_enter_code =
     [10060, 32, 1604, 1591, 1601, 1575, 1611, 32, 1705, 1583, 32, 1583, 1575, 1606,
     1588, 1580, 1608, 1740, 1740, 32, 1582, 1608, 1583, 32, 1585, 1575, 32, 1608, 1575,
     1585, 1583, 32, 1705, 1606, 1740, 1583, 46, 10, 10, 1605, 1579, 1575, 1604, 58, 32,
     47, 108, 111, 103, 105, 110, 32, 52, 48, 50, 50, 48, 50, 48, 48, 51, 48, 10, 10,
     9472, 9472, 9472, 9472, 9472, 10, 10, 10060, 32, 80, 108, 101, 97, 115, 101, 32,
     101, 110, 116, 101, 114, 32, 121, 111, 117, 114, 32, 115, 116, 117, 100, 101, 110,
     116, 32, 73, 68, 46, 10, 10, 69, 120, 97, 109, 112, 108, 101, 58, 32, 47, 108, 111,
     103, 105, 110, 32, 52, 48, 50, 50, 48, 50, 48, 48, 51, 48]"

text \<open>\<^verbatim>\<open>Student ID must contain only numbers.  Example: /login 4022020030\<close>\<close>

definition msg_not_numeric :: pystr where
  "msg_not_numeric =
     [10060, 32, 1705, 1583, 32, 1583, 1575, 1606, 1588, 1580, 1608, 1740, 1740, 32,
     1576, 1575, 1740, 1583, 32, 1601, 1602, 1591, 32, 1588, 1575, 1605, 1604, 32, 1575,
     1593, 1583, 1575, 1583, 32, 1576, 1575, 1588, 1583, 46, 10, 10, 1605, 1579, 1575,
     1604, 58, 32, 47, 108, 111, 103, 105, 110, 32, 52, 48, 50, 50, 48, 50, 48, 48, 51,
     48, 10, 10, 9472, 9472, 9472, 9472, 9472, 10, 10, 10060, 32, 83, 116, 117, 100,
     101, 110, 116, 32, 73, 68, 32, 109, 117, 115, 116, 32, 99, 111, 110, 116, 97, 105,
     110, 32, 111, 110, 108, 121, 32, 110, 117, 109, 98, 101, 114, 115, 46, 10, 10, 69,
     120, 97, 109, 112, 108, 101, 58, 32, 47, 108, 111, 103, 105, 110, 32, 52, 48, 50,
     50, 48, 50, 48, 48, 51, 48]"

text \<open>\<^verbatim>\<open>Student ID is too short.  Example: /login 4022020030\<close>\<close>

definition msg_too_short :: pystr where
  "msg_too_short =
     [10060, 32, 1705, 1583, 32, 1583, 1575, 1606, 1588, 1580, 1608, 1740, 1740, 32,
     1608, 1575, 1585, 1583, 32, 1588, 1583, 1607, 32, 1705, 1608, 1578, 1575, 1607, 32,
     1575, 1587, 1578, 46, 10, 10, 1605, 1579, 1575, 1604, 58, 32, 47, 108, 111, 103,
     105, 110, 32, 52, 48, 50, 50, 48, 50, 48, 48, 51, 48, 10, 10, 9472, 9472, 9472,
     9472, 9472, 10, 10, 10060, 32, 83, 116, 117, 100, 101, 110, 116, 32, 73, 68, 32,
     105, 115, 32, 116, 111, 111, 32, 115, 104, 111, 114, 116, 46, 10, 10, 69, 120, 97,
     109, 112, 108, 101, 58, 32, 47, 108, 111, 103, 105, 110, 32, 52, 48, 50, 50, 48,
     50, 48, 48, 51, 48]"

text \<open>\<^verbatim>\<open>Student ID is too long.  Example: /login 4022020030\<close>\<close>

definition msg_too_long :: pystr where
  "msg_too_long =
     [10060, 32, 1705, 1583, 32, 1583, 1575, 1606, 1588, 1580, 1608, 1740, 1740, 32,
     1608, 1575, 1585, 1583, 32, 1588, 1583, 1607, 32, 1582, 1740, 1604, 1740, 32, 1591,
     1608, 1604, 1575, 1606, 1740, 32, 1575, 1587, 1578, 46, 10, 10, 1605, 1579, 1575,
     1604, 58, 32, 47, 108, 111, 103, 105, 110, 32, 52, 48, 50, 50, 48, 50, 48, 48, 51,
     48, 10, 10, 9472, 9472, 9472, 9472, 9472, 10, 10, 10060, 32, 83, 116, 117, 100,
     101, 110, 116, 32, 73, 68, 32, 105, 115, 32, 116, 111, 111, 32, 108, 111, 110, 103,
     46, 10, 10, 69, 120, 97, 109, 112, 108, 101, 58, 32, 47, 108, 111, 103, 105, 110,
     32, 52, 48, 50, 50, 48, 50, 48, 48, 51, 48]"

text \<open>
  The message of a successful registration, an f-string around the student code:
  \<^verbatim>\<open>Registration successful!  Your student ID (code) has been registered. Now you can ask me anything about Kharazmi University!   You can ask in English or Persian!\<close>
\<close>

definition msg_success :: "pystr \<Rightarrow> pystr" where
  "msg_success student_code =
     [9989, 32, 1579, 1576, 1578, 8204, 1606, 1575, 1605, 32, 1605, 1608, 1601, 1602,
     1740, 1578, 8204, 1570, 1605, 1740, 1586, 32, 1576, 1608, 1583, 33, 10, 10, 1705,
     1583, 32, 1583, 1575, 1606, 1588, 1580, 1608, 1740, 1740, 32, 1588, 1605, 1575, 32,
     40]
     @ student_code @
     [41, 32, 1576, 1575, 32, 1605, 1608, 1601, 1602, 1740, 1578, 32, 1579, 1576, 1578,
     32, 1588, 1583, 46, 32, 1581, 1575, 1604, 1575, 32, 1605, 1740, 8204, 1578, 1608,
     1606, 1740, 1583, 32, 1575, 1586, 32, 1605, 1606, 32, 1607, 1585, 32, 1587, 1608,
     1575, 1604, 1740, 32, 1583, 1585, 1576, 1575, 1585, 1607, 32, 1583, 1575, 1606,
     1588, 1711, 1575, 1607, 32, 1582, 1608, 1575, 1585, 1586, 1605, 1740, 32, 1576,
     1662, 1585, 1587, 1740, 1583, 33, 32, 127891, 10, 10, 9472, 9472, 9472, 9472, 9472,
     10, 10, 9989, 32, 82, 101, 103, 105, 115, 116, 114, 97, 116, 105, 111, 110, 32,
     115, 117, 99, 99, 101, 115, 115, 102, 117, 108, 33, 10, 10, 89, 111, 117, 114, 32,
     115, 116, 117, 100, 101, 110, 116, 32, 73, 68, 32, 40]
     @ student_code @
     [41, 32, 104, 97, 115, 32, 98, 101, 101, 110, 32, 114, 101, 103, 105, 115, 116,
     101, 114, 101, 100, 46, 32, 78, 111, 119, 32, 121, 111, 117, 32, 99, 97, 110, 32,
     97, 115, 107, 32, 109, 101, 32, 97, 110, 121, 116, 104, 105, 110, 103, 32, 97, 98,
     111, 117, 116, 32, 75, 104, 97, 114, 97, 122, 109, 105, 32, 85, 110, 105, 118, 101,
     114, 115, 105, 116, 121, 33, 32, 127891, 10, 10, 89, 111, 117, 32, 99, 97, 110, 32,
     97, 115, 107, 32, 105, 110, 32, 69, 110, 103, 108, 105, 115, 104, 32, 111, 114, 32,
     80, 101, 114, 115, 105, 97, 110, 33]"

text \<open>
  A row of the table \<^verbatim>\<open>users\<close>: the fields of \<^verbatim>\<open>UserCreate\<close> and the timestamps the store
  adds (the key \<^verbatim>\<open>id\<close> it also adds is not modelled: nothing reads it).
\<close>

record user_create =
  user_telegram_id :: int
  username :: "pystr option"
  first_name :: "pystr option"
  user_student_code :: pystr

record user_record = user_create +
  user_created_at :: nat
  updated_at :: nat

text \<open>The two \<^verbatim>\<open>select("*").eq(column, value)\<close> queries and the insert on \<^verbatim>\<open>users\<close>.\<close>

definition select_by_telegram_id :: "call \<Rightarrow> user_record list \<Rightarrow> int \<Rightarrow> exn + user_record list" where
  "select_by_telegram_id c tbl tid =
     (if ok c then Inr (filter (\<lambda>u. user_telegram_id u = tid) tbl) else Inl StoreError)"

definition select_by_student_code ::
  "call \<Rightarrow> user_record list \<Rightarrow> pystr \<Rightarrow> exn + user_record list" where
  "select_by_student_code c tbl code =
     (if ok c then Inr (filter (\<lambda>u. user_student_code u = code) tbl) else Inl StoreError)"

definition insert_user ::
  "call \<Rightarrow> user_record list \<Rightarrow> user_create \<Rightarrow> exn + (user_record list \<times> user_record list)" where
  "insert_user c tbl d =
     (if ok c
      then (let row = \<lparr>user_telegram_id = user_telegram_id d, username = username d,
                        first_name = first_name d, user_student_code = user_student_code d,
                        user_created_at = at_time c, updated_at = at_time c\<rparr>
            in Inr (tbl @ [row], [row]))
      else Inl StoreError)"

text \<open>
  \<^verbatim>\<open>UserRepository\<close>: each method returns the first row of the response, and \<^verbatim>\<open>None\<close> when
  the response is empty or the call raised.
\<close>

definition first_row :: "'a list \<Rightarrow> 'a option" where
  "first_row rows = (case rows of [] \<Rightarrow> None | r # _ \<Rightarrow> Some r)"

definition get_by_telegram_id :: "call \<Rightarrow> user_record list \<Rightarrow> int \<Rightarrow> user_record option" where
  "get_by_telegram_id c tbl tid =
     (case select_by_telegram_id c tbl tid of Inr rows \<Rightarrow> first_row rows | Inl e \<Rightarrow> None)"

definition get_by_student_code :: "call \<Rightarrow> user_record list \<Rightarrow> pystr \<Rightarrow> user_record option" where
  "get_by_student_code c tbl code =
     (case select_by_student_code c tbl code of Inr rows \<Rightarrow> first_row rows | Inl e \<Rightarrow> None)"

definition create ::
  "call \<Rightarrow> user_record list \<Rightarrow> user_create \<Rightarrow> user_record list \<times> user_record option" where
  "create c tbl d =
     (case insert_user c tbl d of
        Inr (tbl', rows) \<Rightarrow> (tbl', first_row rows)
      | Inl e \<Rightarrow> (tbl, None))"

definition exists_user :: "call \<Rightarrow> user_record list \<Rightarrow> int \<Rightarrow> bool" where
  "exists_user c tbl tid \<longleftrightarrow> get_by_telegram_id c tbl tid \<noteq> None"

text \<open>
  \<^verbatim>\<open>_validate_student_code\<close>. The characters \<^verbatim>\<open>str.isdigit\<close> accepts are a table of the
  Python runtime (the Unicode digits); it is the parameter \<open>isdigit\<close>. \<^verbatim>\<open>s.isdigit()\<close> holds
  when \<open>s\<close> is not empty and all its characters are digits.
\<close>

definition validate_student_code :: "(nat \<Rightarrow> bool) \<Rightarrow> pystr \<Rightarrow> bool \<times> pystr" where
  "validate_student_code isdigit student_code =
     (if student_code = [] then (False, msg_enter_code)
      else (let code = strip student_code
            in if \<not> (code \<noteq> [] \<and> list_all isdigit code) then (False, msg_not_numeric)
               else if length code < 5 then (False, msg_too_short)
               else if length code > 15 then (False, msg_too_long)
               else (True, [])))"

text \<open>
  \<^verbatim>\<open>register_user\<close> calls the store up to three times: the lookup by chat identifier, the
  lookup by student code and the insert. It returns the table as it leaves it and the
  pair of the source.
\<close>

definition register_user ::
  "(nat \<Rightarrow> bool) \<Rightarrow> call \<Rightarrow> call \<Rightarrow> call \<Rightarrow> user_record list \<Rightarrow> int \<Rightarrow> pystr
     \<Rightarrow> pystr option \<Rightarrow> pystr option \<Rightarrow> user_record list \<times> (bool \<times> pystr)" where
  "register_user isdigit c1 c2 c3 tbl tid code uname fname =
     (if get_by_telegram_id c1 tbl tid \<noteq> None then (tbl, (False, msg_already_registered))
      else if get_by_student_code c2 tbl code \<noteq> None then (tbl, (False, msg_code_taken))
      else (case validate_student_code isdigit code of
              (False, validation_msg) \<Rightarrow> (tbl, (False, validation_msg))
            | (True, _) \<Rightarrow>
                (let user_data = \<lparr>user_telegram_id = tid, username = uname,
                                   first_name = fname, user_student_code = code\<rparr>;
                     (tbl', created) = create c3 tbl user_data
                 in if created \<noteq> None then (tbl', (True, msg_success code))
                    else (tbl', (False, msg_registration_error)))))"

text \<open>
  The format the validation accepts: once surrounding whitespace is stripped, the code is
  a non-empty string of digits of length 5 to 15.
\<close>

definition well_formed :: "(nat \<Rightarrow> bool) \<Rightarrow> pystr \<Rightarrow> bool" where
  "well_formed isdigit code \<longleftrightarrow>
     strip code \<noteq> [] \<and> list_all isdigit (strip code) \<and>
     5 \<le> length (strip code) \<and> length (strip code) \<le> 15"

text \<open>The ASCII digits, which every table of digits contains; used in examples.\<close>

definition ascii_digit :: "nat \<Rightarrow> bool" where
  "ascii_digit c \<longleftrightarrow> 48 \<le> c \<and> c \<le> 57"

text \<open>The store answers at moment \<open>t\<close>.\<close>

definition answered :: "nat \<Rightarrow> call" where
  "answered t = \<lparr>at_time = t, ok = True\<rparr>"

text \<open>The store does not answer at moment \<open>t\<close>: the call raises.\<close>

definition unanswered :: "nat \<Rightarrow> call" where
  "unanswered t = \<lparr>at_time = t, ok = False\<rparr>"

text \<open>The row \<^verbatim>\<open>register_user\<close> inserts.\<close>

definition new_user :: "int \<Rightarrow> pystr \<Rightarrow> pystr option \<Rightarrow> pystr option \<Rightarrow> nat \<Rightarrow> user_record" where
  "new_user tid code uname fname t =
     \<lparr>user_telegram_id = tid, username = uname, first_name = fname,
      user_student_code = code, user_created_at = t, updated_at = t\<rparr>"

section \<open>Coordinate extraction (ai\_agent.py)\<close>

text \<open>
  The two patterns are a label, \<^verbatim>\<open>[^:]*:\s*\<close> and the group \<^verbatim>\<open>(-?\d+\.?\d*)\<close>. Every part is
  greedy and no character is both in a class and in what must follow it (a digit is
  neither whitespace nor a minus sign), so backtracking never finds a match the first
  attempt misses: a match at a position is found by reading forward.
\<close>

definition is_decimal :: "env \<Rightarrow> nat \<Rightarrow> bool" where
  "is_decimal ev c \<longleftrightarrow> decimal_value ev c \<noteq> None"

text \<open>The group \<^verbatim>\<open>(-?\d+\.?\d*)\<close> at the start of a string.\<close>

definition match_number :: "env \<Rightarrow> pystr \<Rightarrow> pystr option" where
  "match_number ev s =
     (let sign = (if s \<noteq> [] \<and> hd s = 45 then [45] else []);
          s1 = drop (length sign) s;
          digits = takeWhile (is_decimal ev) s1;
          s2 = dropWhile (is_decimal ev) s1;
          dot = (if s2 \<noteq> [] \<and> hd s2 = 46 then [46] else []);
          frac = takeWhile (is_decimal ev) (drop (length dot) s2)
      in if digits = [] then None else Some (sign @ digits @ dot @ frac))"

text \<open>The whole pattern at the start of a string; 58 is the colon.\<close>

definition match_here :: "env \<Rightarrow> pystr \<Rightarrow> pystr \<Rightarrow> pystr option" where
  "match_here ev label s =
     (if take (length label) s = label
      then (case dropWhile (\<lambda>c. c \<noteq> 58) (drop (length label) s) of
              [] \<Rightarrow> None
            | colon # rest \<Rightarrow> match_number ev (dropWhile isspace rest))
      else None)"

text \<open>\<^verbatim>\<open>re.search\<close>: the match at the leftmost position that has one; its group 1.\<close>

fun re_search :: "env \<Rightarrow> pystr \<Rightarrow> pystr \<Rightarrow> pystr option" where
  "re_search ev label [] = match_here ev label []"
| "re_search ev label (c # cs) =
     (case match_here ev label (c # cs) of
        Some g \<Rightarrow> Some g
      | None \<Rightarrow> re_search ev label cs)"

text \<open>The Persian labels of the two patterns: the words for ``width'' and ``length''.\<close>

definition lat_label :: pystr where
  "lat_label = [1593, 1585, 1590]"

definition lng_label :: pystr where
  "lng_label = [1591, 1608, 1604]"

text \<open>
  \<^verbatim>\<open>float(s)\<close> on a numeral of the shape the group has: an optional minus sign, digits, and
  optionally a point and more digits; its value is the integer the digits spell over
  the power of ten of the digits after the point. Any other string is reported as a \<^verbatim>\<open>ValueError\<close>
  (Python's \<^verbatim>\<open>float\<close> accepts more, but is only called on a group).
\<close>

definition digits_value :: "env \<Rightarrow> pystr \<Rightarrow> nat" where
  "digits_value ev ds =
     foldl (\<lambda>a c. 10 * a + (case decimal_value ev c of None \<Rightarrow> 0 | Some d \<Rightarrow> d)) 0 ds"

definition py_float :: "env \<Rightarrow> pystr \<Rightarrow> exn + pyfloat" where
  "py_float ev s =
     (let negative = (s \<noteq> [] \<and> hd s = 45);
          s1 = (if negative then tl s else s);
          digits = takeWhile (is_decimal ev) s1;
          s2 = dropWhile (is_decimal ev) s1;
          frac = (if s2 \<noteq> [] \<and> hd s2 = 46 then tl s2 else [])
      in if digits = [] \<or> \<not> (s2 = [] \<or> hd s2 = 46) \<or> \<not> list_all (is_decimal ev) frac
         then Inl ValueError
         else (let v = int (digits_value ev (digits @ frac))
               in Inr (binary64 (if negative then - v else v) (10 ^ length frac))))"

record location =
  latitude :: pyfloat
  longitude :: pyfloat

definition extract_coordinates :: "env \<Rightarrow> pystr \<Rightarrow> location option" where
  "extract_coordinates ev t =
     (case (re_search ev lat_label t, re_search ev lng_label t) of
        (Some lat_group, Some lng_group) \<Rightarrow>
          (case py_float ev lat_group of
             Inl e \<Rightarrow> None
           | Inr lat \<Rightarrow>
               (case py_float ev lng_group of
                  Inl e \<Rightarrow> None
                | Inr lng \<Rightarrow>
                    if int_le_float 25 lat \<and> float_le_int lat 40 \<and>
                       int_le_float 44 lng \<and> float_le_int lng 64
                    then Some \<lparr>latitude = lat, longitude = lng\<rparr>
                    else None))
      | _ \<Rightarrow> None)"


section \<open>Conversation agent (ai\_agent.py)\<close>

text \<open>The Persian literals of the agent.\<close>

definition apology :: pystr where
  "apology =
     [1740, 1607, 32, 1605, 1588, 1705, 1604, 1740, 32, 1662, 1740, 1588, 32, 1575, 1608,
      1605, 1583, 1548, 32, 1583, 1608, 1576, 1575, 1585, 1607, 32, 1575, 1605, 1578,
      1581, 1575, 1606, 32, 1705, 1606, 46]"

definition not_understood :: pystr where
  "not_understood =
     [1605, 1578, 1608, 1580, 1607, 32, 1606, 1588, 1583, 1605, 1548, 32, 1583, 1608,
      1576, 1575, 1585, 1607, 32, 1576, 1711, 1608, 46]"

definition no_coordinates :: pystr where
  "no_coordinates =
     [1605, 1582, 1578, 1589, 1575, 1578, 32, 1575, 1740, 1606, 32, 1605, 1705, 1575,
      1606, 32, 1605, 1608, 1580, 1608, 1583, 32, 1606, 1740, 1587, 1578]"

definition nothing_found :: pystr where
  "nothing_found =
     [1575, 1591, 1604, 1575, 1593, 1575, 1578, 1740, 32, 1583, 1585, 32, 1662, 1575,
      1740, 1711, 1575, 1607, 32, 1583, 1575, 1583, 1607, 32, 1662, 1740, 1583, 1575, 32,
      1606, 1588, 1583, 46]"

definition score_label :: pystr where
  "score_label = [91, 1575, 1605, 1578, 1740, 1575, 1586, 58, 32]"

text \<open>\<^verbatim>\<open>_search_knowledge\<close>\<close>

definition search_knowledge :: "env \<Rightarrow> pystr \<Rightarrow> pystr" where
  "search_knowledge ev query =
     (let results = search ev query 5 default_threshold
      in if results = [] then nothing_found
         else join (ascii [CHR 0x0A, CHR ''-'', CHR ''-'', CHR ''-'', CHR 0x0A])
                (map (\<lambda>r. score_label @ format_2f ev (similarity r) @ [93, 10] @ content r)
                   results))"

text \<open>\<^verbatim>\<open>_get_location\<close>: the coordinates of the first result that has some.\<close>

fun first_location :: "env \<Rightarrow> knowledge_search_result list \<Rightarrow> location option" where
  "first_location ev [] = None"
| "first_location ev (r # rs) =
     (case extract_coordinates ev (content r) of
        Some loc \<Rightarrow> Some loc
      | None \<Rightarrow> first_location ev rs)"

definition get_location :: "env \<Rightarrow> pystr \<Rightarrow> location option" where
  "get_location ev place_name = first_location ev (search ev place_name 5 default_threshold)"

text \<open>\<^verbatim>\<open>tool_args[key]\<close>\<close>

definition subscript :: "(pystr \<rightharpoonup> pystr) \<Rightarrow> pystr \<Rightarrow> exn + pystr" where
  "subscript d k = (case d k of None \<Rightarrow> Inl KeyError | Some v \<Rightarrow> Inr v)"

text \<open>
  The loop over the tool calls, with \<^verbatim>\<open>location_to_send\<close> and \<^verbatim>\<open>tool_results\<close> as they
  stand. A raise of \<^verbatim>\<open>json.loads\<close> or of a subscript leaves the loop.
\<close>

fun dispatch ::
  "env \<Rightarrow> tool_call list \<Rightarrow> location option \<Rightarrow> message list
     \<Rightarrow> exn + (location option \<times> message list)" where
  "dispatch ev [] location_to_send tool_results = Inr (location_to_send, tool_results)"
| "dispatch ev (tc # tcs) location_to_send tool_results =
     (case json_loads ev (function_arguments tc) of
        Inl e \<Rightarrow> Inl e
      | Inr tool_args \<Rightarrow>
          if function_name tc = ascii ''search_knowledge''
          then (case subscript tool_args (ascii ''query'') of
                  Inl e \<Rightarrow> Inl e
                | Inr query \<Rightarrow>
                    dispatch ev tcs location_to_send
                      (tool_results @ [ToolResult (call_id tc) (search_knowledge ev query)]))
          else if function_name tc = ascii ''send_location''
          then (case subscript tool_args (ascii ''place_name'') of
                  Inl e \<Rightarrow> Inl e
                | Inr place_name \<Rightarrow>
                    (let found = get_location ev place_name
                     in dispatch ev tcs found
                          (tool_results @
                           [ToolResult (call_id tc)
                              (case found of
                                 Some loc \<Rightarrow> json_dumps ev (latitude loc, longitude loc)
                               | None \<Rightarrow> no_coordinates)])))
          else dispatch ev tcs location_to_send tool_results)"

text \<open>
  The messages built before the \<^verbatim>\<open>try\<close> block: the system prompt, the last three entries
  of the history with their content cut to 300 characters, and the user's message.
\<close>

definition history_entry :: "(pystr \<rightharpoonup> pystr) \<Rightarrow> message" where
  "history_entry msg =
     Entry (case msg (ascii ''role'') of None \<Rightarrow> ascii ''user'' | Some r \<Rightarrow> r)
           (take 300 (case msg (ascii ''content'') of None \<Rightarrow> [] | Some c \<Rightarrow> c))"

definition build_messages :: "pystr \<Rightarrow> (pystr \<rightharpoonup> pystr) list option \<Rightarrow> message list" where
  "build_messages user_message conversation_history =
     [System]
     @ (case conversation_history of
          None \<Rightarrow> []
        | Some h \<Rightarrow> map history_entry (drop (length h - 3) h))
     @ [Entry (ascii ''user'') user_message]"

text \<open>\<^verbatim>\<open>response.choices[0].message\<close>\<close>

definition first_choice :: "assistant_message list \<Rightarrow> exn + assistant_message" where
  "first_choice choices = (case choices of [] \<Rightarrow> Inl IndexError | m # _ \<Rightarrow> Inr m)"

text \<open>\<^verbatim>\<open>message.content or <not understood>\<close>\<close>

definition content_or_default :: "assistant_message \<Rightarrow> pystr" where
  "content_or_default m =
     (case message_content m of
        None \<Rightarrow> not_understood
      | Some c \<Rightarrow> if c = [] then not_understood else c)"

text \<open>The body of the \<^verbatim>\<open>try\<close> block of \<^verbatim>\<open>chat\<close>.\<close>

definition chat_try :: "env \<Rightarrow> message list \<Rightarrow> exn + (pystr \<times> location option)" where
  "chat_try ev messages =
     (case completions_create ev messages True of
        Inl e \<Rightarrow> Inl e
      | Inr choices \<Rightarrow>
          (case first_choice choices of
             Inl e \<Rightarrow> Inl e
           | Inr assistant \<Rightarrow>
               if tool_calls assistant \<noteq> []
               then (case dispatch ev (tool_calls assistant) None [] of
                       Inl e \<Rightarrow> Inl e
                     | Inr (location_to_send, tool_results) \<Rightarrow>
                         (case completions_create ev
                                 (messages @ [Assistant assistant] @ tool_results) False of
                            Inl e \<Rightarrow> Inl e
                          | Inr final_choices \<Rightarrow>
                              (case first_choice final_choices of
                                 Inl e \<Rightarrow> Inl e
                               | Inr final \<Rightarrow>
                                   Inr (content_or_default final, location_to_send))))
               else Inr (content_or_default assistant, None)))"

definition chat ::
  "env \<Rightarrow> pystr \<Rightarrow> (pystr \<rightharpoonup> pystr) list option \<Rightarrow> pystr \<times> location option" where
  "chat ev user_message conversation_history =
     (case chat_try ev (build_messages user_message conversation_history) of
        Inl e \<Rightarrow> (apology, None)
      | Inr r \<Rightarrow> r)"

text \<open>
  Services used in examples: the ASCII digits as the table of decimal digits, an
  embedding service and a model that raise on every call, and a store with no rows.
\<close>

definition ascii_decimal :: "nat \<Rightarrow> nat option" where
  "ascii_decimal c = (if 48 \<le> c \<and> c \<le> 57 then Some (c - 48) else None)"

definition failing_env :: env where
  "failing_env =
     \<lparr>embeddings_create = (\<lambda>t. Inl EmbeddingError),
      match_knowledge = (\<lambda>v th n. Inr []),
      completions_create = (\<lambda>ms tools. Inl ModelError),
      json_loads = (\<lambda>s. Inl JSONDecodeError),
      json_dumps = (\<lambda>p. []),
      format_2f = (\<lambda>f. []),
      decimal_value = ascii_decimal\<rparr>"

text \<open>
  The text \<^verbatim>\<open><width>: 35.70 <length>: 51.40\<close> with the Persian labels, and the same text
  with a latitude of 10.0.
\<close>

definition tehran_text :: pystr where
  "tehran_text =
     [1593, 1585, 1590, 58, 32, 51, 53, 46, 55, 48, 32,
      1591, 1608, 1604, 58, 32, 53, 49, 46, 52, 48]"


text \<open>
  Services whose store holds one row with \<open>tehran_text\<close>, whose model asks for the tool
  \<^verbatim>\<open>send_location\<close> when the tools are offered, and raises when they are not.
\<close>

definition location_env :: env where
  "location_env =
     \<lparr>embeddings_create = (\<lambda>t. Inr [[Finite 1]]),
      match_knowledge =
        (\<lambda>v th n. Inr [\<lparr>row_content = Some tehran_text, row_metadata = None,
                          row_similarity = Some (Finite 1)\<rparr>]),
      completions_create =
        (\<lambda>ms tools.
           if tools
           then Inr [\<lparr>message_content = None,
                      tool_calls = [\<lparr>call_id = [49], function_name = ascii ''send_location'',
                                     function_arguments = []\<rparr>]\<rparr>]
           else Inl ModelError),
      json_loads = (\<lambda>s. Inr [ascii ''place_name'' \<mapsto> [120]]),
      json_dumps = (\<lambda>p. []),
      format_2f = (\<lambda>f. []),
      decimal_value = ascii_decimal\<rparr>"


section \<open>Document chunker (load\_knowledge.py)\<close>

text \<open>
  \<^verbatim>\<open>s.split()\<close>: the maximal runs of characters that are not whitespace. Whitespace is
  skipped; a character that is not whitespace starts a word, which runs up to the next
  whitespace.
\<close>

function split_ws :: "pystr \<Rightarrow> pystr list" where
  "split_ws [] = []"
| "split_ws (c # cs) =
     (if isspace c then split_ws cs
      else (c # takeWhile (\<lambda>x. \<not> isspace x) cs) # split_ws (dropWhile (\<lambda>x. \<not> isspace x) cs))"
  by pat_completeness auto
termination
  by (relation "measure length") (auto simp: less_Suc_eq_le length_dropWhile_le)

text \<open>
  \<^verbatim>\<open>text.split("\n\n")\<close>: the pieces between the occurrences of two line feeds, found from
  left to right. The result is never empty.
\<close>

fun split_paragraphs :: "pystr \<Rightarrow> pystr list" where
  "split_paragraphs [] = [[]]"
| "split_paragraphs [c] = [[c]]"
| "split_paragraphs (c # d # cs) =
     (if c = 10 \<and> d = 10 then [] # split_paragraphs cs
      else (case split_paragraphs (d # cs) of
              [] \<Rightarrow> [[c]]
            | p # ps \<Rightarrow> (c # p) # ps))"

record knowledge_loader =
  chunk_size :: nat
  chunk_overlap :: nat

definition KnowledgeLoader_init :: knowledge_loader where
  "KnowledgeLoader_init = \<lparr>chunk_size = 1000, chunk_overlap = 200\<rparr>"

text \<open>A chunk: \<^verbatim>\<open>{"content": ..., "metadata": {"source": source}}\<close>.\<close>

record chunk =
  chunk_content :: pystr
  chunk_metadata :: "pystr \<rightharpoonup> pystr"

definition make_chunk :: "pystr \<Rightarrow> pystr \<Rightarrow> chunk" where
  "make_chunk current_chunk source =
     \<lparr>chunk_content = strip current_chunk,
      chunk_metadata = [ascii ''source'' \<mapsto> source]\<rparr>"

text \<open>\<^verbatim>\<open>if current_chunk: chunks.append(...)\<close>\<close>

definition flush :: "chunk list \<Rightarrow> pystr \<Rightarrow> pystr \<Rightarrow> chunk list" where
  "flush chunks current_chunk source =
     (if current_chunk \<noteq> [] then chunks @ [make_chunk current_chunk source] else chunks)"

text \<open>The inner loop over the words of a long paragraph; it returns the chunks and the buffer.\<close>

fun words_loop ::
  "nat \<Rightarrow> pystr \<Rightarrow> pystr list \<Rightarrow> chunk list \<Rightarrow> pystr \<Rightarrow> chunk list \<times> pystr" where
  "words_loop budget source [] chunks current_chunk = (chunks, current_chunk)"
| "words_loop budget source (word # ws) chunks current_chunk =
     (if length current_chunk + length word > budget
      then words_loop budget source ws (flush chunks current_chunk source) (word @ [32])
      else words_loop budget source ws chunks (current_chunk @ word @ [32]))"

text \<open>The loop over the paragraphs.\<close>

fun paragraphs_loop ::
  "nat \<Rightarrow> pystr \<Rightarrow> pystr list \<Rightarrow> chunk list \<Rightarrow> pystr \<Rightarrow> chunk list \<times> pystr" where
  "paragraphs_loop budget source [] chunks current_chunk = (chunks, current_chunk)"
| "paragraphs_loop budget source (p # ps) chunks current_chunk =
     (let para = strip p
      in if para = [] then paragraphs_loop budget source ps chunks current_chunk
         else if length current_chunk + length para > budget
         then (let chunks' = flush chunks current_chunk source
               in if length para > budget
                  then (let (chunks'', rest) = words_loop budget source (split_ws para) chunks' []
                        in paragraphs_loop budget source ps chunks'' rest)
                  else paragraphs_loop budget source ps chunks' (para @ [10, 10]))
         else paragraphs_loop budget source ps chunks (current_chunk @ para @ [10, 10]))"

definition chunk_text :: "knowledge_loader \<Rightarrow> pystr \<Rightarrow> pystr \<Rightarrow> chunk list" where
  "chunk_text self t source =
     (let stripped = strip t
      in if stripped = [] then []
         else (let (chunks, current_chunk) =
                     paragraphs_loop (chunk_size self) source (split_paragraphs stripped) [] []
               in if strip current_chunk \<noteq> [] then chunks @ [make_chunk current_chunk source]
                  else chunks))"

text \<open>What a chunk's content has to satisfy under a budget.\<close>

definition within_budget :: "nat \<Rightarrow> pystr \<Rightarrow> bool" where
  "within_budget budget c \<longleftrightarrow> c \<noteq> [] \<and> (length c \<le> budget \<or> (\<forall>x \<in> set c. \<not> isspace x))"

text \<open>Two paragraphs of 600 letters each, and the document made of them.\<close>

definition para_a :: pystr where
  "para_a = replicate 600 97"

definition para_b :: pystr where
  "para_b = replicate 600 98"

definition two_paragraphs :: pystr where
  "two_paragraphs = para_a @ [10, 10] @ para_b"

text \<open>The words of the chunks, in order.\<close>

definition words_of :: "chunk list \<Rightarrow> pystr list" where
  "words_of chunks = concat (map (\<lambda>c. split_ws (chunk_content c)) chunks)"

text \<open>
  What the loops keep true of the buffer: it is empty, or it starts with a character
  that is not whitespace and, its trailing whitespace removed, is within the budget.
\<close>

definition buffer_ok :: "nat \<Rightarrow> pystr \<Rightarrow> bool" where
  "buffer_ok budget cur \<longleftrightarrow>
     cur = [] \<or> (\<not> isspace (hd cur) \<and> within_budget budget (rstrip cur))"

definition chunk_ok :: "nat \<Rightarrow> pystr \<Rightarrow> chunk \<Rightarrow> bool" where
  "chunk_ok budget source c \<longleftrightarrow>
     within_budget budget (chunk_content c) \<and> chunk_metadata c = [ascii ''source'' \<mapsto> source]"

text \<open>A single word of 1001 letters, and a source label.\<close>

definition long_word :: pystr where
  "long_word = replicate 1001 97"

definition doc_label :: pystr where
  "doc_label = ascii ''doc''"

section \<open>Properties of the rate limiter\<close>





















text \<open>
  Claim C10. When the count query fails, \<^verbatim>\<open>get_today_count\<close> returns 0, so under valid
  settings (a quota of at least 1) \<^verbatim>\<open>is_rate_limited\<close> is false and \<^verbatim>\<open>check_and_log\<close> allows
  the message, whatever the table holds: a read error never causes a rejection.
\<close>

theorem count_failure_fails_open:
  assumes "valid_settings s" and "\<not> ok c1"
  shows "get_today_count c1 tbl uid = 0 \<and> \<not> is_rate_limited s c1 tbl uid \<and>
         fst (snd (check_and_log s self c1 c2 c3 tbl uid msg))"
  using assms
  by (simp add: get_today_count_def execute_count_def is_rate_limited_def valid_settings_def
      check_and_log_def Let_def split: prod.splits)

theorem count_failure_fails_open_witness:
  "valid_settings demo_settings \<and> \<not> ok \<lparr>at_time = 5, ok = False\<rparr> \<and>
   get_today_count \<lparr>at_time = 5, ok = False\<rparr>
     [\<lparr>telegram_id = 7, message_text = None, created_at = 3\<rparr>,
      \<lparr>telegram_id = 7, message_text = None, created_at = 4\<rparr>] 7 = 0 \<and>
   \<not> is_rate_limited demo_settings \<lparr>at_time = 5, ok = False\<rparr>
     [\<lparr>telegram_id = 7, message_text = None, created_at = 3\<rparr>,
      \<lparr>telegram_id = 7, message_text = None, created_at = 4\<rparr>] 7 \<and>
   fst (snd (check_and_log demo_settings (RateLimiter_init demo_settings)
     \<lparr>at_time = 5, ok = False\<rparr> \<lparr>at_time = 6, ok = True\<rparr> \<lparr>at_time = 7, ok = True\<rparr>
     [\<lparr>telegram_id = 7, message_text = None, created_at = 3\<rparr>,
      \<lparr>telegram_id = 7, message_text = None, created_at = 4\<rparr>] 7 None))"
proof -
  have v: "valid_settings demo_settings" by (simp add: valid_settings_def demo_settings_def)
  have f: "\<not> ok \<lparr>at_time = 5, ok = False\<rparr>" by simp
  from count_failure_fails_open[OF v f] v f show ?thesis by blast
qed

section \<open>Properties of the context formatting\<close>

lemma length_join_snoc:
  "length (join sep (xs @ [x])) =
     (if xs = [] then length x else length (join sep xs) + length sep + length x)"
  by (induction sep xs rule: join.induct) auto

lemma format_loop_length:
  assumes "(parts = [] \<and> tot = 0 \<and> - 3 \<le> m) \<or>
           (parts \<noteq> [] \<and> int (length (join separator parts)) + 10 \<le> tot \<and>
            int (length (join separator parts)) \<le> m)"
  shows "int (length (join separator (format_loop m rs parts tot))) \<le> m + 3"
  using assms
proof (induction rs arbitrary: parts tot)
  case Nil
  then show ?case by auto
next
  case (Cons r rs)
  let ?c = "labelled r"
  show ?case
  proof (cases "tot + int (length ?c) > m")
    case True
    then show ?thesis using Cons.prems
      by (auto simp: Let_def length_join_snoc separator_def ascii_def)
  next
    case False
    have "int (length (join separator (format_loop m rs (parts @ [?c]) (tot + int (length ?c) + 10)))) \<le> m + 3"
    proof (rule Cons.IH)
      show "(parts @ [?c] = [] \<and> tot + int (length ?c) + 10 = 0 \<and> - 3 \<le> m) \<or>
            (parts @ [?c] \<noteq> [] \<and>
             int (length (join separator (parts @ [?c]))) + 10 \<le> tot + int (length ?c) + 10 \<and>
             int (length (join separator (parts @ [?c]))) \<le> m)"
        using False Cons.prems by (auto simp: length_join_snoc separator_def)
    qed
    then show ?thesis using False by (simp add: Let_def)
  qed
qed










text \<open>
  Claim C9, as amended. For every list of results and every \<open>max_length\<close> of at least \<open>-3\<close>,
  the string \<^verbatim>\<open>format_context\<close> returns is at most \<open>max_length + 3\<close> long, 3 being the
  length of the ellipsis.
\<close>

theorem format_context_length:
  assumes "- 3 \<le> max_length"
  shows "int (length (format_context results max_length)) \<le> max_length + 3"
  using format_loop_length[of "[]" 0 max_length results] assms
  by (simp add: format_context_def)

theorem format_context_length_witness:
  "- 3 \<le> (120::int) \<and>
   int (length (format_context [plain_result (replicate 150 97), plain_result (replicate 5 97)] 120))
     \<le> 120 + 3"
  using format_context_length[of 120 "[plain_result (replicate 150 97), plain_result (replicate 5 97)]"]
  by simp

text \<open>
  Claim C9 as stated fails for a \<open>max_length\<close> below \<open>-3\<close>: with \<open>max_length = -5\<close> the
  result is the empty string, of length 0, and the bound \<open>max_length + 3\<close> is \<open>-2\<close>.
\<close>

theorem format_context_negative_counterexample:
  "format_context [plain_result (ascii ''abcde'')] (- 5) = [] \<and>
   \<not> int (length (format_context [plain_result (ascii ''abcde'')] (- 5))) \<le> - 5 + 3"
  by (simp add: format_context_def plain_result_def labelled_def ascii_def strip_def rstrip_def
      isspace_def)

section \<open>Properties of the knowledge search\<close>

lemma search_try_returns: "\<exists>rs. search_try ev query match_count th = Inr rs"
  by (simp add: search_try_def split: option.splits)

text \<open>
  Claim C6. When the embedding call raises or yields no vector, or when the store's
  similarity search raises, \<^verbatim>\<open>search\<close> returns the empty list; and whatever the services
  do, the body of \<^verbatim>\<open>search\<close> returns a list, so no exception leaves the service.
\<close>

theorem search_failure_is_empty:
  assumes "(\<exists>e. embeddings_create ev query = Inl e) \<or> embeddings_create ev query = Inr [] \<or>
           (\<exists>v rest e. embeddings_create ev query = Inr (v # rest) \<and>
                        match_knowledge ev v similarity_threshold match_count = Inl e)"
  shows "search ev query match_count similarity_threshold = [] \<and>
         (\<exists>rs. search_try ev query match_count similarity_threshold = Inr rs)"
  using assms
  by (auto simp: search_def search_try_def get_embedding_def get_embedding_try_def
      repository_search_def repository_search_try_def split: option.splits)

theorem search_failure_is_empty_witness:
  "embeddings_create failing_env [104, 105] = Inl EmbeddingError \<and>
   search failing_env [104, 105] 5 default_threshold = []"
proof -
  have h: "embeddings_create failing_env [104, 105] = Inl EmbeddingError"
    by (simp add: failing_env_def)
  then have "(\<exists>e. embeddings_create failing_env [104, 105] = Inl e) \<or>
      embeddings_create failing_env [104, 105] = Inr [] \<or>
      (\<exists>v rest e. embeddings_create failing_env [104, 105] = Inr (v # rest) \<and>
                   match_knowledge failing_env v default_threshold 5 = Inl e)"
    by blast
  from search_failure_is_empty[OF this] h show ?thesis by blast
qed

section \<open>Properties of the registration\<close>

lemma msgs_distinct:
  "msg_already_registered \<noteq> msg_code_taken"
  "msg_already_registered \<notin> {msg_enter_code, msg_not_numeric, msg_too_short, msg_too_long}"
  "msg_code_taken \<notin> {msg_enter_code, msg_not_numeric, msg_too_short, msg_too_long}"
  "msg_registration_error \<notin> {msg_already_registered, msg_code_taken, msg_enter_code,
      msg_not_numeric, msg_too_short, msg_too_long}"
  by (simp_all add: msg_already_registered_def msg_code_taken_def msg_enter_code_def
      msg_not_numeric_def msg_too_short_def msg_too_long_def msg_registration_error_def)

lemma first_row_None: "first_row rows = None \<longleftrightarrow> rows = []"
  by (simp add: first_row_def split: list.splits)

lemma get_by_telegram_id_ok:
  "ok c \<Longrightarrow> get_by_telegram_id c tbl tid = None \<longleftrightarrow> (\<forall>u \<in> set tbl. user_telegram_id u \<noteq> tid)"
  by (auto simp: get_by_telegram_id_def select_by_telegram_id_def first_row_None filter_empty_conv)

lemma get_by_student_code_ok:
  "ok c \<Longrightarrow> get_by_student_code c tbl code = None \<longleftrightarrow> (\<forall>u \<in> set tbl. user_student_code u \<noteq> code)"
  by (auto simp: get_by_student_code_def select_by_student_code_def first_row_None filter_empty_conv)

lemma create_ok:
  "ok c \<Longrightarrow> create c tbl d =
     (tbl @ [\<lparr>user_telegram_id = user_telegram_id d, username = username d,
              first_name = first_name d, user_student_code = user_student_code d,
              user_created_at = at_time c, updated_at = at_time c\<rparr>],
      Some \<lparr>user_telegram_id = user_telegram_id d, username = username d,
              first_name = first_name d, user_student_code = user_student_code d,
              user_created_at = at_time c, updated_at = at_time c\<rparr>)"
  by (simp add: create_def insert_user_def first_row_def Let_def)

lemma validate_well_formed:
  "fst (validate_student_code isdigit code) \<longleftrightarrow> well_formed isdigit code"
  by (auto simp: validate_student_code_def well_formed_def Let_def strip_def rstrip_def)

lemma validate_msg:
  "\<not> well_formed isdigit code \<Longrightarrow>
   snd (validate_student_code isdigit code) \<in> {msg_enter_code, msg_not_numeric, msg_too_short, msg_too_long}"
  by (auto simp: validate_student_code_def well_formed_def Let_def)

lemma create_failed: "\<not> ok c \<Longrightarrow> create c tbl d = (tbl, None)"
  by (simp add: create_def insert_user_def)

lemma register_user_ok:
  assumes "ok c1" "ok c2"
  shows "register_user isdigit c1 c2 c3 tbl tid code uname fname =
     (if \<exists>u \<in> set tbl. user_telegram_id u = tid then (tbl, (False, msg_already_registered))
      else if \<exists>u \<in> set tbl. user_student_code u = code then (tbl, (False, msg_code_taken))
      else if \<not> well_formed isdigit code
      then (tbl, (False, snd (validate_student_code isdigit code)))
      else if ok c3
      then (tbl @ [new_user tid code uname fname (at_time c3)], (True, msg_success code))
      else (tbl, (False, msg_registration_error)))"
proof -
  have 1: "get_by_telegram_id c1 tbl tid \<noteq> None \<longleftrightarrow> (\<exists>u \<in> set tbl. user_telegram_id u = tid)"
    using get_by_telegram_id_ok[OF assms(1), of tbl tid] by auto
  have 2: "get_by_student_code c2 tbl code \<noteq> None \<longleftrightarrow> (\<exists>u \<in> set tbl. user_student_code u = code)"
    using get_by_student_code_ok[OF assms(2), of tbl code] by auto
  obtain b m where v: "validate_student_code isdigit code = (b, m)"
    by (cases "validate_student_code isdigit code")
  have b: "b \<longleftrightarrow> well_formed isdigit code"
    using validate_well_formed[of isdigit code] v by simp
  show ?thesis
  proof (cases "ok c3")
    case True
    show ?thesis
      unfolding register_user_def 1 2 v
      by (simp add: b True create_ok[OF True] new_user_def)
  next
    case False
    show ?thesis
      unfolding register_user_def 1 2 v
      by (simp add: b False create_failed[OF False])
  qed
qed

lemma register_user_again:
  assumes "ok c1" "ok c2" "ok c4"
    and "fst (snd (register_user isdigit c1 c2 c3 tbl tid code uname fname))"
  shows "snd (register_user isdigit c4 c5 c6
               (fst (register_user isdigit c1 c2 c3 tbl tid code uname fname))
               tid code' uname' fname') = (False, msg_already_registered)"
proof -
  have "\<exists>u \<in> set (fst (register_user isdigit c1 c2 c3 tbl tid code uname fname)).
          user_telegram_id u = tid"
    using assms(4) unfolding register_user_ok[OF assms(1,2)]
    by (auto simp: new_user_def split: if_splits)
  then have "get_by_telegram_id c4 (fst (register_user isdigit c1 c2 c3 tbl tid code uname fname)) tid
      \<noteq> None"
    using get_by_telegram_id_ok[OF assms(3)] by blast
  then show ?thesis by (simp add: register_user_def)
qed

text \<open>
  Claim C2, as amended. While the store answers the lookups, \<^verbatim>\<open>register_user\<close> returns one
  of five outcomes, checked in this order: the failure ``already registered'' when a record
  exists for the chat identifier; the failure ``code taken'' when a record holds the
  student code; a failure with one of the four format messages when the code, once
  surrounding whitespace is stripped, is empty, is not all digits or has a length outside
  5 to 15; otherwise success, with a record for the chat identifier appended, when the
  store answers the insert, and the failure ``registration error'', with the table
  unchanged, when it does not. The messages of the failures differ from one another:
  ``already registered'', ``code taken'' and ``registration error'' from each other and
  from the format messages. After a success, any further registration of the same chat
  identifier whose lookup is answered fails with ``already registered''.
\<close>

theorem register_user_outcomes:
  assumes "ok c1" "ok c2" "ok c4"
  shows "register_user isdigit c1 c2 c3 tbl tid code uname fname =
     (if \<exists>u \<in> set tbl. user_telegram_id u = tid then (tbl, (False, msg_already_registered))
      else if \<exists>u \<in> set tbl. user_student_code u = code then (tbl, (False, msg_code_taken))
      else if \<not> well_formed isdigit code
      then (tbl, (False, snd (validate_student_code isdigit code)))
      else if ok c3
      then (tbl @ [new_user tid code uname fname (at_time c3)], (True, msg_success code))
      else (tbl, (False, msg_registration_error)))
    \<and> (\<not> well_formed isdigit code \<longrightarrow>
         snd (validate_student_code isdigit code)
           \<in> {msg_enter_code, msg_not_numeric, msg_too_short, msg_too_long})
    \<and> msg_already_registered \<noteq> msg_code_taken
    \<and> msg_already_registered \<notin> {msg_enter_code, msg_not_numeric, msg_too_short, msg_too_long}
    \<and> msg_code_taken \<notin> {msg_enter_code, msg_not_numeric, msg_too_short, msg_too_long}
    \<and> msg_registration_error \<notin> {msg_already_registered, msg_code_taken, msg_enter_code,
         msg_not_numeric, msg_too_short, msg_too_long}
    \<and> (fst (snd (register_user isdigit c1 c2 c3 tbl tid code uname fname)) \<longrightarrow>
         snd (register_user isdigit c4 c5 c6
               (fst (register_user isdigit c1 c2 c3 tbl tid code uname fname))
               tid code' uname' fname') = (False, msg_already_registered))"
  by (intro conjI impI register_user_ok[OF assms(1,2)] validate_msg msgs_distinct
      register_user_again[OF assms])

lemma well_formed_examples:
  "well_formed ascii_digit [52, 48, 50, 50, 48, 50, 48, 48, 51, 48]"
  "\<not> well_formed ascii_digit [49, 50, 51, 52]"
  "\<not> well_formed ascii_digit [49, 50, 51, 52, 53, 54, 55, 56, 57, 48, 49, 50, 51, 52, 53, 54]"
  "\<not> well_formed ascii_digit [49, 50, 51, 52, 53, 97, 98]"
  "well_formed ascii_digit [49, 50, 51, 52, 53, 32]"
  by (simp_all add: well_formed_def strip_def rstrip_def isspace_def ascii_digit_def)

theorem register_user_outcomes_witness:
  "ok (answered 1) \<and> ok (answered 2) \<and> ok (answered 4) \<and>
   register_user ascii_digit (answered 1) (answered 2) (answered 3) [] 7
       [52, 48, 50, 50, 48, 50, 48, 48, 51, 48] None None =
     ([new_user 7 [52, 48, 50, 50, 48, 50, 48, 48, 51, 48] None None 3],
      (True, msg_success [52, 48, 50, 50, 48, 50, 48, 48, 51, 48])) \<and>
   snd (register_user ascii_digit (answered 4) (answered 5) (answered 6)
         (fst (register_user ascii_digit (answered 1) (answered 2) (answered 3) [] 7
                 [52, 48, 50, 50, 48, 50, 48, 48, 51, 48] None None))
         7 [52, 48, 50, 50, 48, 50, 48, 48, 51, 48] None None)
     = (False, msg_already_registered) \<and>
   register_user ascii_digit (answered 1) (answered 2) (answered 3)
       [new_user 7 [52, 48, 50, 50, 48, 50, 48, 48, 51, 48] None None 3] 8
       [52, 48, 50, 50, 48, 50, 48, 48, 51, 48] None None =
     ([new_user 7 [52, 48, 50, 50, 48, 50, 48, 48, 51, 48] None None 3],
      (False, msg_code_taken)) \<and>
   register_user ascii_digit (answered 1) (answered 2) (answered 3) [] 7
       [49, 50, 51, 52] None None = ([], (False, msg_too_short)) \<and>
   register_user ascii_digit (answered 1) (answered 2) (answered 3) [] 7
       [49, 50, 51, 52, 53, 54, 55, 56, 57, 48, 49, 50, 51, 52, 53, 54] None None =
     ([], (False, msg_too_long)) \<and>
   register_user ascii_digit (answered 1) (answered 2) (answered 3) [] 7
       [49, 50, 51, 52, 53, 97, 98] None None = ([], (False, msg_not_numeric)) \<and>
   register_user ascii_digit (answered 1) (answered 2) (unanswered 3) [] 7
       [52, 48, 50, 50, 48, 50, 48, 48, 51, 48] None None = ([], (False, msg_registration_error))"
proof -
  have oks: "ok (answered 1)" "ok (answered 2)" "ok (answered 4)"
    by (simp_all add: answered_def)
  note th = register_user_outcomes[OF oks, where isdigit = ascii_digit]
  have t3: "at_time (answered 3) = 3" "ok (answered 3)" "\<not> ok (unanswered 3)"
    by (simp_all add: answered_def unanswered_def)
  have v: "validate_student_code ascii_digit [49, 50, 51, 52] = (False, msg_too_short)"
    "validate_student_code ascii_digit
       [49, 50, 51, 52, 53, 54, 55, 56, 57, 48, 49, 50, 51, 52, 53, 54] = (False, msg_too_long)"
    "validate_student_code ascii_digit [49, 50, 51, 52, 53, 97, 98] = (False, msg_not_numeric)"
    by (simp_all add: validate_student_code_def strip_def rstrip_def isspace_def ascii_digit_def)
  have a: "register_user ascii_digit (answered 1) (answered 2) (answered 3) [] 7
       [52, 48, 50, 50, 48, 50, 48, 48, 51, 48] None None =
     ([new_user 7 [52, 48, 50, 50, 48, 50, 48, 48, 51, 48] None None 3],
      (True, msg_success [52, 48, 50, 50, 48, 50, 48, 48, 51, 48]))"
    using th[of "answered 3" "[]" 7 "[52, 48, 50, 50, 48, 50, 48, 48, 51, 48]" None None, THEN conjunct1]
    by (simp add: well_formed_examples t3)
  have b: "snd (register_user ascii_digit (answered 4) (answered 5) (answered 6)
         (fst (register_user ascii_digit (answered 1) (answered 2) (answered 3) [] 7
                 [52, 48, 50, 50, 48, 50, 48, 48, 51, 48] None None))
         7 [52, 48, 50, 50, 48, 50, 48, 48, 51, 48] None None)
     = (False, msg_already_registered)"
    using th[of "answered 3" "[]" 7 "[52, 48, 50, 50, 48, 50, 48, 48, 51, 48]" None None
        "answered 5" "answered 6" "[52, 48, 50, 50, 48, 50, 48, 48, 51, 48]" None None,
        THEN conjunct2, THEN conjunct2, THEN conjunct2, THEN conjunct2, THEN conjunct2,
        THEN conjunct2]
    unfolding a by simp
  have c: "register_user ascii_digit (answered 1) (answered 2) (answered 3)
       [new_user 7 [52, 48, 50, 50, 48, 50, 48, 48, 51, 48] None None 3] 8
       [52, 48, 50, 50, 48, 50, 48, 48, 51, 48] None None =
     ([new_user 7 [52, 48, 50, 50, 48, 50, 48, 48, 51, 48] None None 3],
      (False, msg_code_taken))"
    using th[of "answered 3" "[new_user 7 [52, 48, 50, 50, 48, 50, 48, 48, 51, 48] None None 3]" 8
        "[52, 48, 50, 50, 48, 50, 48, 48, 51, 48]" None None, THEN conjunct1]
    by (simp add: new_user_def)
  have d: "register_user ascii_digit (answered 1) (answered 2) (answered 3) [] 7
       [49, 50, 51, 52] None None = ([], (False, msg_too_short))"
    using th[of "answered 3" "[]" 7 "[49, 50, 51, 52]" None None, THEN conjunct1]
    by (simp add: well_formed_examples v)
  have e: "register_user ascii_digit (answered 1) (answered 2) (answered 3) [] 7
       [49, 50, 51, 52, 53, 54, 55, 56, 57, 48, 49, 50, 51, 52, 53, 54] None None =
     ([], (False, msg_too_long))"
    using th[of "answered 3" "[]" 7 "[49, 50, 51, 52, 53, 54, 55, 56, 57, 48, 49, 50, 51, 52, 53, 54]"
        None None, THEN conjunct1]
    by (simp add: well_formed_examples v)
  have f: "register_user ascii_digit (answered 1) (answered 2) (answered 3) [] 7
       [49, 50, 51, 52, 53, 97, 98] None None = ([], (False, msg_not_numeric))"
    using th[of "answered 3" "[]" 7 "[49, 50, 51, 52, 53, 97, 98]" None None, THEN conjunct1]
    by (simp add: well_formed_examples v)
  have g: "register_user ascii_digit (answered 1) (answered 2) (unanswered 3) [] 7
       [52, 48, 50, 50, 48, 50, 48, 48, 51, 48] None None = ([], (False, msg_registration_error))"
    using th[of "unanswered 3" "[]" 7 "[52, 48, 50, 50, 48, 50, 48, 48, 51, 48]" None None, THEN conjunct1]
    by (simp add: well_formed_examples t3)
  show ?thesis by (intro conjI oks a b c d e f g)
qed

lemma lookup_failed:
  "get_by_telegram_id (unanswered t) tbl tid = None"
  "get_by_student_code (unanswered t) tbl code = None"
  by (simp_all add: get_by_telegram_id_def select_by_telegram_id_def get_by_student_code_def
      select_by_student_code_def unanswered_def)

lemma lookup_found:
  "get_by_student_code (answered 2) [new_user 7 [52, 48, 50, 50, 48, 50, 48, 48, 51, 48] None None 3] [52, 48, 50, 50, 48, 50, 48, 48, 51, 48] \<noteq> None"
  by (simp add: get_by_student_code_def select_by_student_code_def answered_def new_user_def
      first_row_def)

lemma valid_example:
  "validate_student_code ascii_digit [52, 48, 50, 50, 48, 50, 48, 48, 51, 48] = (True, [])"
  by (simp add: validate_student_code_def strip_def rstrip_def isspace_def ascii_digit_def)

text \<open>
  Claim C2 as stated fails in four ways. The code \<^verbatim>\<open>"12345 "\<close>, five digits and a trailing
  space, is not all digits, and with the ASCII digits as the table of digits it is
  registered. When the store does not answer the insert, a valid code of a fresh chat
  identifier gets a fifth outcome, the failure ``registration error'', whose message is
  none of the others. When the store does not answer the lookup by chat identifier, a
  chat identifier that has a record is not told ``already registered'': with its own code
  it is told ``code taken''. When the store does not answer the lookup by student code,
  a code that belongs to another chat identifier is not told ``code taken'': here, with
  the insert failing too, it is told ``registration error''.
\<close>

theorem register_user_outcomes_counterexample:
  "\<not> list_all ascii_digit [49, 50, 51, 52, 53, 32] \<and>
   register_user ascii_digit (answered 1) (answered 2) (answered 3) [] 7
       [49, 50, 51, 52, 53, 32] None None =
     ([new_user 7 [49, 50, 51, 52, 53, 32] None None 3],
      (True, msg_success [49, 50, 51, 52, 53, 32])) \<and>
   register_user ascii_digit (answered 1) (answered 2) (unanswered 3) [] 7
       [52, 48, 50, 50, 48, 50, 48, 48, 51, 48] None None = ([], (False, msg_registration_error)) \<and>
   msg_registration_error \<notin> {msg_already_registered, msg_code_taken, msg_enter_code,
       msg_not_numeric, msg_too_short, msg_too_long} \<and>
   register_user ascii_digit (unanswered 1) (answered 2) (answered 3)
       [new_user 7 [52, 48, 50, 50, 48, 50, 48, 48, 51, 48] None None 3] 7 [52, 48, 50, 50, 48, 50, 48, 48, 51, 48] None None =
     ([new_user 7 [52, 48, 50, 50, 48, 50, 48, 48, 51, 48] None None 3], (False, msg_code_taken)) \<and>
   msg_code_taken \<noteq> msg_already_registered \<and>
   register_user ascii_digit (answered 1) (unanswered 2) (unanswered 3)
       [new_user 7 [52, 48, 50, 50, 48, 50, 48, 48, 51, 48] None None 3] 8 [52, 48, 50, 50, 48, 50, 48, 48, 51, 48] None None =
     ([new_user 7 [52, 48, 50, 50, 48, 50, 48, 48, 51, 48] None None 3], (False, msg_registration_error)) \<and>
   msg_registration_error \<noteq> msg_code_taken"
proof -
  have oks: "ok (answered 1)" "ok (answered 2)" "ok (answered 3)" "\<not> ok (unanswered 3)"
    "at_time (answered 3) = 3"
    by (simp_all add: answered_def unanswered_def)
  have 1: "\<not> list_all ascii_digit [49, 50, 51, 52, 53, 32]" by (simp add: ascii_digit_def)
  have 2: "register_user ascii_digit (answered 1) (answered 2) (answered 3) [] 7
       [49, 50, 51, 52, 53, 32] None None =
     ([new_user 7 [49, 50, 51, 52, 53, 32] None None 3],
      (True, msg_success [49, 50, 51, 52, 53, 32]))"
    by (subst register_user_ok[OF oks(1,2)]) (simp add: oks well_formed_examples)
  have 3: "register_user ascii_digit (answered 1) (answered 2) (unanswered 3) [] 7
       [52, 48, 50, 50, 48, 50, 48, 48, 51, 48] None None = ([], (False, msg_registration_error))"
    by (subst register_user_ok[OF oks(1,2)]) (simp add: oks well_formed_examples)
  have 4: "register_user ascii_digit (unanswered 1) (answered 2) (answered 3)
       [new_user 7 [52, 48, 50, 50, 48, 50, 48, 48, 51, 48] None None 3] 7 [52, 48, 50, 50, 48, 50, 48, 48, 51, 48] None None =
     ([new_user 7 [52, 48, 50, 50, 48, 50, 48, 48, 51, 48] None None 3], (False, msg_code_taken))"
    using lookup_found by (simp add: register_user_def lookup_failed)
  have 5: "register_user ascii_digit (answered 1) (unanswered 2) (unanswered 3)
       [new_user 7 [52, 48, 50, 50, 48, 50, 48, 48, 51, 48] None None 3] 8 [52, 48, 50, 50, 48, 50, 48, 48, 51, 48] None None =
     ([new_user 7 [52, 48, 50, 50, 48, 50, 48, 48, 51, 48] None None 3], (False, msg_registration_error))"
  proof -
    have "get_by_telegram_id (answered 1) [new_user 7 [52, 48, 50, 50, 48, 50, 48, 48, 51, 48] None None 3] 8 = None"
      by (simp add: get_by_telegram_id_def select_by_telegram_id_def answered_def new_user_def
          first_row_def)
    then show ?thesis
      by (simp add: register_user_def lookup_failed valid_example create_failed[OF oks(4)])
  qed
  have 6: "msg_code_taken \<noteq> msg_already_registered" "msg_registration_error \<noteq> msg_code_taken"
    using msgs_distinct by auto
  show ?thesis by (intro conjI 1 2 3 msgs_distinct(4) 4 5 6)
qed

section \<open>Properties of the coordinate extraction\<close>

lemma bitlen_numeral [simp]:
  "bitlen 0 = 0" "bitlen 1 = 1"
  "bitlen (numeral (Num.Bit0 k)) = Suc (bitlen (numeral k))"
  "bitlen (numeral (Num.Bit1 k)) = Suc (bitlen (numeral k))"
  by (subst bitlen.simps, simp add: numeral_Bit0_div_2 numeral_Bit1_div_2)+

lemmas float_eval = binary64_def floor_log2_def scaled_def round_half_even_def pow2_def
  int_le_float_def float_le_int_def

lemmas match_eval = match_here_def match_number_def is_decimal_def ascii_decimal_def
  lat_label_def lng_label_def isspace_def py_float_def digits_value_def

lemma decimal_failing [simp]: "decimal_value failing_env = ascii_decimal"
  by (simp add: failing_env_def)

lemma decimal_location [simp]: "decimal_value location_env = ascii_decimal"
  by (simp add: location_env_def)

lemma tehran_groups:
  "decimal_value ev = ascii_decimal \<Longrightarrow> re_search ev lat_label tehran_text = Some [51, 53, 46, 55, 48]"
  "decimal_value ev = ascii_decimal \<Longrightarrow> re_search ev lng_label tehran_text = Some [53, 49, 46, 52, 48]"
  by (simp_all add: tehran_text_def match_eval)

lemma tehran_floats:
  "decimal_value ev = ascii_decimal \<Longrightarrow> py_float ev [51, 53, 46, 55, 48] = Inr (binary64 3570 100)"
  "decimal_value ev = ascii_decimal \<Longrightarrow> py_float ev [53, 49, 46, 52, 48] = Inr (binary64 5140 100)"
  by (simp_all add: match_eval)

lemma tehran_box:
  "int_le_float 25 (binary64 3570 100)" "float_le_int (binary64 3570 100) 40"
  "int_le_float 44 (binary64 5140 100)" "float_le_int (binary64 5140 100) 64"
  by (simp_all add: float_eval Let_def)

lemma tehran_coordinates:
  "decimal_value ev = ascii_decimal \<Longrightarrow>
   extract_coordinates ev tehran_text =
     Some \<lparr>latitude = binary64 3570 100, longitude = binary64 5140 100\<rparr>"
  by (simp add: extract_coordinates_def tehran_groups tehran_floats tehran_box)












lemma float_literals:
  "binary64 3570 100 = binary64 357 10" "binary64 5140 100 = binary64 514 10"
  "binary64 100 10 = Finite 10"
  by (simp_all add: float_eval Let_def)




section \<open>Properties of the conversation agent\<close>

text \<open>
  Claim C7. When an invocation of the language model inside \<^verbatim>\<open>chat\<close> raises or returns a
  response without choices, be it the first invocation or the one after the tool calls,
  \<^verbatim>\<open>chat\<close> returns the fixed apology and no location, also when a tool call had found one.
\<close>

theorem chat_model_failure:
  assumes "(\<exists>e. completions_create ev (build_messages user_message history) True = Inl e) \<or>
           completions_create ev (build_messages user_message history) True = Inr [] \<or>
           (\<exists>a rest loc results.
              completions_create ev (build_messages user_message history) True = Inr (a # rest) \<and>
              tool_calls a \<noteq> [] \<and>
              dispatch ev (tool_calls a) None [] = Inr (loc, results) \<and>
              ((\<exists>e. completions_create ev
                      (build_messages user_message history @ [Assistant a] @ results) False = Inl e)
               \<or> completions_create ev
                      (build_messages user_message history @ [Assistant a] @ results) False = Inr []))"
  shows "chat ev user_message history = (apology, None)"
  using assms
  by (auto simp: chat_def chat_try_def first_choice_def)

lemma location_search:
  "search location_env q 5 default_threshold =
     [\<lparr>content = tehran_text, metadata = Map.empty, similarity = Finite 1\<rparr>]"
  by (simp add: search_def search_try_def get_embedding_def get_embedding_try_def
      repository_search_def repository_search_try_def to_result_def location_env_def)

lemma location_found:
  "get_location location_env q =
     Some \<lparr>latitude = binary64 357 10, longitude = binary64 514 10\<rparr>"
  by (simp add: get_location_def location_search tehran_coordinates float_literals)

lemma location_dispatch:
  "dispatch location_env
     [\<lparr>call_id = [49], function_name = ascii ''send_location'', function_arguments = []\<rparr>]
     None [] =
   Inr (Some \<lparr>latitude = binary64 357 10, longitude = binary64 514 10\<rparr>,
        [ToolResult [49] []])"
proof -
  have l: "json_loads location_env [] = Inr [ascii ''place_name'' \<mapsto> [120]]"
    and j: "json_dumps location_env (binary64 357 10, binary64 514 10) = []"
    by (simp_all add: location_env_def)
  have n: "ascii ''send_location'' \<noteq> ascii ''search_knowledge''"
    by (simp add: ascii_def)
  show ?thesis
    by (simp add: l j n subscript_def location_found)
qed

theorem chat_model_failure_witness:
  "completions_create failing_env (build_messages [104, 105] None) True = Inl ModelError \<and>
   chat failing_env [104, 105] None = (apology, None) \<and>
   completions_create location_env (build_messages [104, 105] None) True =
     Inr [\<lparr>message_content = None,
           tool_calls = [\<lparr>call_id = [49], function_name = ascii ''send_location'',
                          function_arguments = []\<rparr>]\<rparr>] \<and>
   dispatch location_env
     [\<lparr>call_id = [49], function_name = ascii ''send_location'', function_arguments = []\<rparr>]
     None [] =
   Inr (Some \<lparr>latitude = binary64 357 10, longitude = binary64 514 10\<rparr>,
        [ToolResult [49] []]) \<and>
   chat location_env [104, 105] None = (apology, None)"
proof -
  have 1: "completions_create failing_env (build_messages [104, 105] None) True = Inl ModelError"
    by (simp add: failing_env_def)
  have c1: "chat failing_env [104, 105] None = (apology, None)"
    by (rule chat_model_failure) (use 1 in blast)
  let ?a = "\<lparr>message_content = None,
           tool_calls = [\<lparr>call_id = [49], function_name = ascii ''send_location'',
                          function_arguments = []\<rparr>]\<rparr>"
  have 2: "completions_create location_env (build_messages [104, 105] None) True = Inr [?a]"
    by (simp add: location_env_def)
  have 3: "completions_create location_env
             (build_messages [104, 105] None @ [Assistant ?a] @ [ToolResult [49] []]) False
           = Inl ModelError"
    by (simp add: location_env_def)
  have 4: "tool_calls ?a \<noteq> []" by simp
  have 5: "dispatch location_env (tool_calls ?a) None [] =
     Inr (Some \<lparr>latitude = binary64 357 10, longitude = binary64 514 10\<rparr>,
        [ToolResult [49] []])"
    using location_dispatch by simp
  have c2: "chat location_env [104, 105] None = (apology, None)"
    by (rule chat_model_failure) (use 2 3 4 5 in blast)
  show ?thesis by (intro conjI 1 c1 2 location_dispatch c2)
qed

section \<open>Properties of the chunker\<close>

lemma rstrip_decompose: "s = rstrip s @ rev (takeWhile isspace (rev s))"
  unfolding rstrip_def by (metis rev_append rev_rev_ident takeWhile_dropWhile_id)

lemma rstrip_last: "rstrip s \<noteq> [] \<Longrightarrow> \<not> isspace (last (rstrip s))"
  unfolding rstrip_def by (simp add: last_rev hd_dropWhile)

lemma dropWhile_all: "\<forall>c \<in> set ws. P c \<Longrightarrow> dropWhile P (ws @ r) = dropWhile P r"
  by (induction ws) auto

lemma takeWhile_all: "\<forall>c \<in> set ws. P c \<Longrightarrow> takeWhile P (ws @ r) = ws @ takeWhile P r"
  by (induction ws) auto

lemma rstrip_append_ws:
  assumes "x \<noteq> []" "\<not> isspace (last x)" "\<forall>c \<in> set ws. isspace c"
  shows "rstrip (cur @ x @ ws) = cur @ x"
proof -
  have "\<forall>c \<in> set (rev ws). isspace c" using assms(3) by simp
  then have "dropWhile isspace (rev ws @ rev x @ rev cur) = dropWhile isspace (rev x @ rev cur)"
    by (rule dropWhile_all)
  also have "\<dots> = rev x @ rev cur"
  proof (cases "rev x")
    case Nil
    then show ?thesis using assms(1) by simp
  next
    case (Cons y ys)
    then have "y = last x" by (metis last_rev list.sel(1) hd_rev rev_rev_ident)
    then have "\<not> isspace y" using assms(2) by simp
    then show ?thesis unfolding Cons by simp
  qed
  finally show ?thesis by (simp add: rstrip_def)
qed

lemma strip_hd: "s \<noteq> [] \<Longrightarrow> \<not> isspace (hd s) \<Longrightarrow> strip s = rstrip s"
  by (cases s) (simp_all add: strip_def)

lemma strip_ends:
  assumes "strip p \<noteq> []"
  shows "\<not> isspace (hd (strip p))" "\<not> isspace (last (strip p))"
proof -
  let ?q = "dropWhile isspace p"
  have ne: "rstrip ?q \<noteq> []" using assms by (simp add: strip_def)
  show "\<not> isspace (last (strip p))" using rstrip_last[OF ne] by (simp add: strip_def)
  have q: "?q = rstrip ?q @ rev (takeWhile isspace (rev ?q))" by (rule rstrip_decompose)
  have "?q \<noteq> []"
  proof
    assume e: "?q = []"
    have "rstrip ?q = rstrip []" by (simp only: e)
    then have "rstrip ?q = []" by (simp add: rstrip_def)
    with ne show False by simp
  qed
  then have "\<not> isspace (hd ?q)" by (rule hd_dropWhile)
  moreover have "hd ?q = hd (rstrip ?q)" using ne by (subst q) simp
  ultimately show "\<not> isspace (hd (strip p))" by (simp add: strip_def)
qed


lemma split_ws_space: "\<forall>c \<in> set ws. isspace c \<Longrightarrow> split_ws (ws @ r) = split_ws r"
  by (induction ws) auto

lemma split_ws_all_space: "\<forall>c \<in> set ws. isspace c \<Longrightarrow> split_ws ws = []"
  using split_ws_space[of ws "[]"] by simp

lemma word_stop:
  assumes "x \<in> set cs" "isspace x"
  shows "takeWhile (\<lambda>x. \<not> isspace x) (cs @ b) = takeWhile (\<lambda>x. \<not> isspace x) cs"
    and "dropWhile (\<lambda>x. \<not> isspace x) (cs @ b) = dropWhile (\<lambda>x. \<not> isspace x) cs @ b"
  using assms by (induction cs) auto

lemma word_all:
  assumes "\<forall>x \<in> set cs. \<not> isspace x"
  shows "takeWhile (\<lambda>x. \<not> isspace x) (cs @ b) = cs @ takeWhile (\<lambda>x. \<not> isspace x) b"
    and "dropWhile (\<lambda>x. \<not> isspace x) (cs @ b) = dropWhile (\<lambda>x. \<not> isspace x) b"
  using assms by (induction cs) auto

lemma split_ws_append_l:
  "b = [] \<or> isspace (hd b) \<Longrightarrow> split_ws (a @ b) = split_ws a @ split_ws b"
proof (induction a rule: split_ws.induct)
  case 1
  then show ?case by simp
next
  case (2 c cs)
  show ?case
  proof (cases "isspace c")
    case True
    then show ?thesis using 2 by simp
  next
    case False
    let ?P = "\<lambda>x. \<not> isspace x"
    show ?thesis
    proof (cases "\<forall>x \<in> set cs. ?P x")
      case True
      have tb: "takeWhile ?P b = []" "dropWhile ?P b = b"
        using "2.prems" by (cases b; simp)+
      have t: "takeWhile ?P (cs @ b) = cs" "dropWhile ?P (cs @ b) = b"
        "takeWhile ?P cs = cs" "dropWhile ?P cs = []"
        using word_all[OF True, of b] word_all[OF True, of "[]"] tb by simp_all
      show ?thesis using False by (simp add: t)
    next
      case nall: False
      then obtain x where x: "x \<in> set cs" "isspace x" by blast
      have t: "takeWhile ?P (cs @ b) = takeWhile ?P cs"
        "dropWhile ?P (cs @ b) = dropWhile ?P cs @ b"
        using word_stop[OF x] by simp_all
      show ?thesis using False "2.IH"(2)[OF False "2.prems"] by (simp add: t)
    qed
  qed
qed


lemma split_ws_append_r:
  "a = [] \<or> isspace (last a) \<Longrightarrow> split_ws (a @ b) = split_ws a @ split_ws b"
proof (induction a rule: split_ws.induct)
  case 1
  then show ?case by simp
next
  case (2 c cs)
  show ?case
  proof (cases "isspace c")
    case True
    have "cs = [] \<or> isspace (last cs)" using "2.prems" by (auto split: if_splits)
    then show ?thesis using True "2.IH"(1) by simp
  next
    case False
    let ?P = "\<lambda>x. \<not> isspace x"
    have sp: "isspace (last (c # cs))" using "2.prems" by simp
    then have ne: "cs \<noteq> []" using False by auto
    then have l: "last cs \<in> set cs" "isspace (last cs)" using sp by auto
    have t: "takeWhile ?P (cs @ b) = takeWhile ?P cs"
      "dropWhile ?P (cs @ b) = dropWhile ?P cs @ b"
      using word_stop[OF l] by simp_all
    have d: "dropWhile ?P cs \<noteq> []" using l by (auto simp: dropWhile_eq_Nil_conv)
    have "last (dropWhile ?P cs) = last cs"
      using d by (metis last_appendR takeWhile_dropWhile_id)
    then have "dropWhile ?P cs = [] \<or> isspace (last (dropWhile ?P cs))" using l by simp
    from "2.IH"(2)[OF False this] show ?thesis using False by (simp add: t)
  qed
qed

lemma word_whole:
  assumes "\<forall>x \<in> set cs. \<not> isspace x"
  shows "takeWhile (\<lambda>x. \<not> isspace x) cs = cs" "dropWhile (\<lambda>x. \<not> isspace x) cs = []"
  using assms by (induction cs) auto

lemma split_ws_word:
  assumes "w \<noteq> []" "\<forall>c \<in> set w. \<not> isspace c"
  shows "split_ws w = [w]"
proof -
  obtain c cs where w: "w = c # cs" using assms(1) by (cases w) auto
  have c: "\<not> isspace c" and cs: "\<forall>x \<in> set cs. \<not> isspace x" using assms(2) w by auto
  show ?thesis unfolding w using c by (simp add: word_whole[OF cs])
qed

lemma split_ws_words:
  "w \<in> set (split_ws s) \<Longrightarrow> w \<noteq> [] \<and> (\<forall>c \<in> set w. \<not> isspace c)"
proof (induction s rule: split_ws.induct)
  case 1
  then show ?case by simp
next
  case (2 c cs)
  show ?case
  proof (cases "isspace c")
    case True
    then have "w \<in> set (split_ws cs)" using "2.prems" by (simp only: split_ws.simps if_True)
    then show ?thesis using "2.IH"(1)[OF True] by blast
  next
    case False
    then have "w \<in> set ((c # takeWhile (\<lambda>x. \<not> isspace x) cs)
        # split_ws (dropWhile (\<lambda>x. \<not> isspace x) cs))"
      using "2.prems" by (simp only: split_ws.simps if_False)
    then have "w = c # takeWhile (\<lambda>x. \<not> isspace x) cs
        \<or> w \<in> set (split_ws (dropWhile (\<lambda>x. \<not> isspace x) cs))"
      by (simp only: set_simps insert_iff)
    then show ?thesis
    proof
      assume e: "w = c # takeWhile (\<lambda>x. \<not> isspace x) cs"
      have "\<forall>x \<in> set (takeWhile (\<lambda>x. \<not> isspace x) cs). \<not> isspace x"
        by (auto dest: set_takeWhileD)
      then show ?thesis using False e by simp
    next
      assume "w \<in> set (split_ws (dropWhile (\<lambda>x. \<not> isspace x) cs))"
      then show ?thesis using "2.IH"(2)[OF False] by blast
    qed
  qed
qed

lemma split_ws_rstrip: "split_ws (rstrip s) = split_ws s"
proof -
  let ?ws = "rev (takeWhile isspace (rev s))"
  have a: "\<forall>c \<in> set ?ws. isspace c" by (auto dest: set_takeWhileD)
  then have "?ws = [] \<or> isspace (hd ?ws)" by (cases ?ws) auto
  then have "split_ws (rstrip s @ ?ws) = split_ws (rstrip s) @ split_ws ?ws"
    by (rule split_ws_append_l)
  then show ?thesis using split_ws_all_space[OF a] rstrip_decompose[of s] by simp
qed

lemma split_ws_dropWhile: "split_ws (dropWhile isspace s) = split_ws s"
  by (induction s) auto

lemma split_ws_strip: "split_ws (strip s) = split_ws s"
  by (simp add: strip_def split_ws_rstrip split_ws_dropWhile)

lemma strip_Nil_iff: "strip s = [] \<longleftrightarrow> split_ws s = []"
proof
  assume "strip s = []"
  then show "split_ws s = []" using split_ws_strip[of s] by simp
next
  assume e: "split_ws s = []"
  show "strip s = []"
  proof (rule ccontr)
    assume n: "strip s \<noteq> []"
    then obtain c cs where c: "strip s = c # cs" by (cases "strip s") auto
    have "\<not> isspace c" using strip_ends(1)[OF n] c by simp
    then have "split_ws (strip s) \<noteq> []" using c by simp
    then show False using e split_ws_strip[of s] by simp
  qed
qed

lemma space_chars: "isspace 32" "isspace 10"
  by (simp_all add: isspace_def)

lemma words_of_simps:
  "words_of [] = []"
  "words_of (chunks @ [c]) = words_of chunks @ split_ws (chunk_content c)"
  by (simp_all add: words_of_def)

lemma flush_words: "words_of (flush chunks cur src) = words_of chunks @ split_ws cur"
  by (simp add: flush_def words_of_simps make_chunk_def split_ws_strip)

lemma split_ws_snoc_word:
  assumes "cur = [] \<or> isspace (last cur)" "w \<noteq> []" "\<forall>c \<in> set w. \<not> isspace c"
    and "ws \<noteq> []" "\<forall>c \<in> set ws. isspace c"
  shows "split_ws (cur @ w @ ws) = split_ws cur @ [w]"
proof -
  have "ws = [] \<or> isspace (hd ws)" using assms(4,5) by (cases ws) auto
  then have "split_ws (w @ ws) = split_ws w @ split_ws ws" by (rule split_ws_append_l)
  then have "split_ws (w @ ws) = [w]"
    using split_ws_word[OF assms(2,3)] split_ws_all_space[OF assms(5)] by simp
  then show ?thesis using split_ws_append_r[OF assms(1), of "w @ ws"] by simp
qed

lemma words_loop_words:
  assumes "cur = [] \<or> isspace (last cur)"
    and "\<forall>w \<in> set ws. w \<noteq> [] \<and> (\<forall>c \<in> set w. \<not> isspace c)"
  shows "words_of (fst (words_loop b src ws chunks cur)) @ split_ws (snd (words_loop b src ws chunks cur))
           = words_of chunks @ split_ws cur @ ws
         \<and> (snd (words_loop b src ws chunks cur) = []
              \<or> isspace (last (snd (words_loop b src ws chunks cur))))"
  using assms
proof (induction ws arbitrary: chunks cur)
  case Nil
  then show ?case by simp
next
  case (Cons w ws)
  have w: "w \<noteq> []" "\<forall>c \<in> set w. \<not> isspace c" and ws: "\<forall>w \<in> set ws. w \<noteq> [] \<and> (\<forall>c \<in> set w. \<not> isspace c)"
    using Cons.prems(2) by auto
  have e: "w @ [32] = [] \<or> isspace (last (w @ [32]))" by (simp add: space_chars)
  have sw: "split_ws (w @ [32]) = [w]"
    using split_ws_snoc_word[of "[]" w "[32]"] w by (simp add: space_chars)
  show ?case
  proof (cases "length cur + length w > b")
    case True
    from Cons.IH[OF e ws, of "flush chunks cur src"] True
    show ?thesis by (simp add: flush_words sw)
  next
    case False
    have e': "cur @ w @ [32] = [] \<or> isspace (last (cur @ w @ [32]))" by (simp add: space_chars)
    have sw': "split_ws (cur @ w @ [32]) = split_ws cur @ [w]"
      using split_ws_snoc_word[OF Cons.prems(1) w, of "[32]"] by (simp add: space_chars)
    from Cons.IH[OF e' ws, of chunks] False
    show ?thesis by (simp add: sw')
  qed
qed


lemma split_ws_snoc_para:
  assumes "cur = [] \<or> isspace (last cur)"
  shows "split_ws (cur @ para @ [10, 10]) = split_ws cur @ split_ws para"
proof -
  have "split_ws (para @ [10, 10]) = split_ws para @ split_ws [10, 10]"
    by (rule split_ws_append_l) (simp add: space_chars)
  then have "split_ws (para @ [10, 10]) = split_ws para" by (simp add: space_chars)
  then show ?thesis using split_ws_append_r[OF assms, of "para @ [10, 10]"] by simp
qed

lemma paragraphs_loop_words:
  assumes "cur = [] \<or> isspace (last cur)"
  shows "words_of (fst (paragraphs_loop b src ps chunks cur))
           @ split_ws (snd (paragraphs_loop b src ps chunks cur))
           = words_of chunks @ split_ws cur @ concat (map split_ws ps)"
  using assms
proof (induction ps arbitrary: chunks cur)
  case Nil
  then show ?case by simp
next
  case (Cons p ps)
  let ?para = "strip p"
  have sp: "split_ws ?para = split_ws p" by (rule split_ws_strip)
  show ?case
  proof (cases "?para = []")
    case True
    then have "split_ws p = []" using sp by simp
    then show ?thesis using True Cons.IH[OF Cons.prems, of chunks] by simp
  next
    case ne: False
    show ?thesis
    proof (cases "length cur + length ?para > b")
      case over: True
      show ?thesis
      proof (cases "length ?para > b")
        case True
        let ?r = "words_loop b src (split_ws ?para) (flush chunks cur src) []"
        have wl: "words_of (fst ?r) @ split_ws (snd ?r)
             = words_of (flush chunks cur src) @ split_ws [] @ split_ws ?para"
          and e: "snd ?r = [] \<or> isspace (last (snd ?r))"
          using words_loop_words[of "[]" "split_ws ?para" b src "flush chunks cur src"]
            split_ws_words by blast+
        have "paragraphs_loop b src (p # ps) chunks cur = paragraphs_loop b src ps (fst ?r) (snd ?r)"
          using ne over True by (simp add: Let_def split_beta)
        then show ?thesis using Cons.IH[OF e, of "fst ?r"] wl by (simp add: flush_words sp)
      next
        case False
        have e: "?para @ [10, 10] = [] \<or> isspace (last (?para @ [10, 10]))"
          by (simp add: space_chars)
        have "paragraphs_loop b src (p # ps) chunks cur
            = paragraphs_loop b src ps (flush chunks cur src) (?para @ [10, 10])"
          using ne over False by (simp add: Let_def)
        then show ?thesis
          using Cons.IH[OF e, of "flush chunks cur src"] split_ws_snoc_para[of "[]" ?para]
          by (simp add: flush_words sp)
      qed
    next
      case False
      have e: "cur @ ?para @ [10, 10] = [] \<or> isspace (last (cur @ ?para @ [10, 10]))"
        by (simp add: space_chars)
      have "paragraphs_loop b src (p # ps) chunks cur
            = paragraphs_loop b src ps chunks (cur @ ?para @ [10, 10])"
        using ne False by (simp add: Let_def)
      then show ?thesis
        using Cons.IH[OF e, of chunks] split_ws_snoc_para[OF Cons.prems, of ?para]
        by (simp add: sp)
    qed
  qed
qed

lemma split_paragraphs_nonempty: "split_paragraphs t \<noteq> []"
  by (induction t rule: split_paragraphs.induct) (auto split: list.splits)

lemma split_ws_line_feeds: "split_ws (10 # cs) = split_ws cs"
  by (simp add: space_chars)

lemma join_Cons_Cons: "join sep ((c # p) # ps) = c # join sep (p # ps)"
  by (cases ps) simp_all

lemma join_split_paragraphs: "join [10, 10] (split_paragraphs t) = t"
proof (induction t rule: split_paragraphs.induct)
  case 1
  then show ?case by simp
next
  case (2 c)
  then show ?case by simp
next
  case (3 c d cs)
  show ?case
  proof (cases "c = 10 \<and> d = 10")
    case True
    obtain p ps where s: "split_paragraphs cs = p # ps"
      using split_paragraphs_nonempty[of cs] by (cases "split_paragraphs cs") auto
    have "join [10, 10] (p # ps) = cs" using "3.IH"(1)[OF True] s by simp
    then show ?thesis using True s by simp
  next
    case False
    obtain p ps where s: "split_paragraphs (d # cs) = p # ps"
      using split_paragraphs_nonempty[of "d # cs"] by (cases "split_paragraphs (d # cs)") auto
    have j: "join [10, 10] (p # ps) = d # cs" using "3.IH"(2)[OF False] s by simp
    have "split_paragraphs (c # d # cs) = (c # p) # ps" using False s by auto
    then show ?thesis using j by (simp only: join_Cons_Cons)
  qed
qed

lemma words_join:
  "ps \<noteq> [] \<Longrightarrow> concat (map split_ws ps) = split_ws (join [10, 10] ps)"
proof (induction "[10::nat, 10]" ps rule: join.induct)
  case 1
  then show ?case by simp
next
  case (2 x)
  then show ?case by simp
next
  case (3 x y ys)
  have "split_ws (x @ ([10, 10] @ join [10, 10] (y # ys)))
      = split_ws x @ split_ws ([10, 10] @ join [10, 10] (y # ys))"
    by (rule split_ws_append_l) (simp add: space_chars)
  then have "split_ws (x @ [10, 10] @ join [10, 10] (y # ys))
      = split_ws x @ split_ws (join [10, 10] (y # ys))"
    by (simp add: space_chars)
  then show ?case using 3 by simp
qed

lemma split_paragraphs_words: "concat (map split_ws (split_paragraphs t)) = split_ws t"
  using words_join[OF split_paragraphs_nonempty, of t] by (simp add: join_split_paragraphs)

lemma chunk_text_words: "words_of (chunk_text self t src) = split_ws t"
proof (cases "strip t = []")
  case True
  then show ?thesis using strip_Nil_iff[of t] by (simp add: chunk_text_def words_of_simps)
next
  case False
  let ?r = "paragraphs_loop (chunk_size self) src (split_paragraphs (strip t)) [] []"
  have w: "words_of (fst ?r) @ split_ws (snd ?r) = split_ws t"
    using paragraphs_loop_words[of "[]" "chunk_size self" src "split_paragraphs (strip t)" "[]"]
    by (simp add: words_of_simps split_paragraphs_words split_ws_strip)
  show ?thesis
  proof (cases "strip (snd ?r) = []")
    case True
    then have "split_ws (snd ?r) = []" using strip_Nil_iff by blast
    then show ?thesis using False True w by (simp add: chunk_text_def Let_def split_beta)
  next
    case ne: False
    then show ?thesis using False w
      by (simp add: chunk_text_def Let_def split_beta words_of_simps make_chunk_def split_ws_strip)
  qed
qed

lemma flush_ok:
  assumes "buffer_ok b cur" "\<forall>c \<in> set chunks. chunk_ok b src c"
  shows "\<forall>c \<in> set (flush chunks cur src). chunk_ok b src c"
proof (cases "cur = []")
  case True
  then show ?thesis using assms(2) by (simp add: flush_def)
next
  case False
  then have h: "\<not> isspace (hd cur)" and w: "within_budget b (rstrip cur)"
    using assms(1) by (auto simp: buffer_ok_def)
  have "strip cur = rstrip cur" using strip_hd[OF False h] .
  then have "chunk_ok b src (make_chunk cur src)"
    using w by (simp add: chunk_ok_def make_chunk_def)
  then show ?thesis using assms(2) False by (simp add: flush_def)
qed

lemma buffer_fresh:
  assumes "x \<noteq> []" "\<not> isspace (hd x)" "\<not> isspace (last x)"
    and "ws \<noteq> []" "\<forall>c \<in> set ws. isspace c"
    and "length x \<le> b \<or> (\<forall>c \<in> set x. \<not> isspace c)"
  shows "buffer_ok b (x @ ws)"
proof -
  have r: "rstrip (x @ ws) = x" using rstrip_append_ws[OF assms(1,3,5), of "[]"] by simp
  have "hd (x @ ws) = hd x" using assms(1) by simp
  then show ?thesis using assms(1,2,6) by (simp add: buffer_ok_def r within_budget_def)
qed

lemma buffer_extend:
  assumes "buffer_ok b cur" "x \<noteq> []" "\<not> isspace (hd x)" "\<not> isspace (last x)"
    and "ws \<noteq> []" "\<forall>c \<in> set ws. isspace c"
    and "length cur + length x \<le> b"
  shows "buffer_ok b (cur @ x @ ws)"
proof (cases "cur = []")
  case True
  then show ?thesis using buffer_fresh[OF assms(2,3,4,5,6), of b] assms(7) by simp
next
  case False
  then have h: "\<not> isspace (hd cur)" using assms(1) by (auto simp: buffer_ok_def)
  have r: "rstrip (cur @ x @ ws) = cur @ x" using rstrip_append_ws[OF assms(2,4,6)] .
  have "hd (cur @ x @ ws) = hd cur" using False by simp
  then show ?thesis using h False assms(7) by (simp add: buffer_ok_def r within_budget_def)
qed

lemma word_ends:
  assumes "w \<noteq> []" "\<forall>c \<in> set w. \<not> isspace c"
  shows "\<not> isspace (hd w)" "\<not> isspace (last w)"
  using assms by (cases w; simp)+

lemma words_loop_ok:
  assumes "buffer_ok b cur" "\<forall>c \<in> set chunks. chunk_ok b src c"
    and "\<forall>w \<in> set ws. w \<noteq> [] \<and> (\<forall>c \<in> set w. \<not> isspace c)"
  shows "(\<forall>c \<in> set (fst (words_loop b src ws chunks cur)). chunk_ok b src c)
         \<and> buffer_ok b (snd (words_loop b src ws chunks cur))"
  using assms
proof (induction ws arbitrary: chunks cur)
  case Nil
  then show ?case by simp
next
  case (Cons w ws)
  have w: "w \<noteq> []" "\<forall>c \<in> set w. \<not> isspace c"
    and ws: "\<forall>w \<in> set ws. w \<noteq> [] \<and> (\<forall>c \<in> set w. \<not> isspace c)"
    using Cons.prems(3) by auto
  note we = word_ends[OF w]
  show ?case
  proof (cases "length cur + length w > b")
    case True
    have f: "buffer_ok b (w @ [32])"
      using buffer_fresh[OF w(1) we, of "[32]" b] w(2) by (simp add: space_chars)
    from Cons.IH[OF f flush_ok[OF Cons.prems(1,2)] ws] True show ?thesis by simp
  next
    case False
    have f: "buffer_ok b (cur @ w @ [32])"
      using buffer_extend[OF Cons.prems(1) w(1) we, of "[32]"] False by (simp add: space_chars)
    from Cons.IH[OF f Cons.prems(2) ws] False show ?thesis by simp
  qed
qed

lemma paragraphs_loop_ok:
  assumes "buffer_ok b cur" "\<forall>c \<in> set chunks. chunk_ok b src c"
  shows "(\<forall>c \<in> set (fst (paragraphs_loop b src ps chunks cur)). chunk_ok b src c)
         \<and> buffer_ok b (snd (paragraphs_loop b src ps chunks cur))"
  using assms
proof (induction ps arbitrary: chunks cur)
  case Nil
  then show ?case by simp
next
  case (Cons p ps)
  let ?para = "strip p"
  show ?case
  proof (cases "?para = []")
    case True
    then show ?thesis using Cons.IH[OF Cons.prems] by simp
  next
    case ne: False
    note pe = strip_ends[OF ne]
    show ?thesis
    proof (cases "length cur + length ?para > b")
      case over: True
      note fl = flush_ok[OF Cons.prems]
      show ?thesis
      proof (cases "length ?para > b")
        case True
        let ?r = "words_loop b src (split_ws ?para) (flush chunks cur src) []"
        have e: "buffer_ok b []" by (simp add: buffer_ok_def)
        have wl: "\<forall>c \<in> set (fst ?r). chunk_ok b src c" "buffer_ok b (snd ?r)"
          using words_loop_ok[OF e fl, of "split_ws ?para"] split_ws_words by blast+
        have "paragraphs_loop b src (p # ps) chunks cur = paragraphs_loop b src ps (fst ?r) (snd ?r)"
          using ne over True by (simp add: Let_def split_beta)
        then show ?thesis using Cons.IH[OF wl(2) wl(1)] by simp
      next
        case False
        have f: "buffer_ok b (?para @ [10, 10])"
          using buffer_fresh[OF ne pe, of "[10, 10]" b] False by (simp add: space_chars)
        have "paragraphs_loop b src (p # ps) chunks cur
            = paragraphs_loop b src ps (flush chunks cur src) (?para @ [10, 10])"
          using ne over False by (simp add: Let_def)
        then show ?thesis using Cons.IH[OF f fl] by simp
      qed
    next
      case False
      have f: "buffer_ok b (cur @ ?para @ [10, 10])"
        using buffer_extend[OF Cons.prems(1) ne pe, of "[10, 10]"] False by (simp add: space_chars)
      have "paragraphs_loop b src (p # ps) chunks cur
            = paragraphs_loop b src ps chunks (cur @ ?para @ [10, 10])"
        using ne False by (simp add: Let_def)
      then show ?thesis using Cons.IH[OF f Cons.prems(2)] by simp
    qed
  qed
qed

lemma chunk_text_ok: "\<forall>c \<in> set (chunk_text self t src). chunk_ok (chunk_size self) src c"
proof (cases "strip t = []")
  case True
  then show ?thesis by (simp add: chunk_text_def)
next
  case False
  let ?r = "paragraphs_loop (chunk_size self) src (split_paragraphs (strip t)) [] []"
  have e: "buffer_ok (chunk_size self) []" by (simp add: buffer_ok_def)
  have ok: "\<forall>c \<in> set (fst ?r). chunk_ok (chunk_size self) src c"
    "buffer_ok (chunk_size self) (snd ?r)"
    using paragraphs_loop_ok[OF e, of "[]" src "split_paragraphs (strip t)"] by simp_all
  show ?thesis
  proof (cases "strip (snd ?r) = []")
    case True
    then show ?thesis using False ok(1) by (simp add: chunk_text_def Let_def split_beta)
  next
    case ne: False
    then have "snd ?r \<noteq> []" by (auto simp: strip_def rstrip_def)
    from flush_ok[OF ok(2) ok(1)] this
    have "\<forall>c \<in> set (fst ?r @ [make_chunk (snd ?r) src]). chunk_ok (chunk_size self) src c"
      by (simp add: flush_def)
    then show ?thesis using False ne by (simp add: chunk_text_def Let_def split_beta)
  qed
qed

lemma oversize_chunk_is_word:
  assumes "c \<in> set (chunk_text self t src)" "length (chunk_content c) > chunk_size self"
  shows "chunk_content c \<in> set (split_ws t)"
proof -
  have "within_budget (chunk_size self) (chunk_content c)"
    using chunk_text_ok assms(1) by (auto simp: chunk_ok_def)
  then have "split_ws (chunk_content c) = [chunk_content c]"
    using assms(2) split_ws_word by (auto simp: within_budget_def)
  then have "chunk_content c \<in> set (split_ws (chunk_content c))" by simp
  then have "chunk_content c \<in> set (words_of (chunk_text self t src))"
    using assms(1) unfolding words_of_def by (simp only: set_concat set_map) blast
  then show ?thesis by (simp add: chunk_text_words)
qed

lemma words_loop_buffer:
  assumes "cur \<noteq> [] \<or> ws \<noteq> []"
  shows "snd (words_loop b src ws chunks cur) \<noteq> []"
  using assms
proof (induction ws arbitrary: chunks cur)
  case Nil
  then show ?case by simp
next
  case (Cons w ws)
  show ?case
  proof (cases "length cur + length w > b")
    case True
    then show ?thesis using Cons.IH[of "w @ [32]" "flush chunks cur src"] by simp
  next
    case False
    then show ?thesis using Cons.IH[of "cur @ w @ [32]" chunks] by simp
  qed
qed

lemma paragraphs_loop_buffer:
  assumes "cur \<noteq> [] \<or> (\<exists>p \<in> set ps. strip p \<noteq> [])"
  shows "snd (paragraphs_loop b src ps chunks cur) \<noteq> []"
  using assms
proof (induction ps arbitrary: chunks cur)
  case Nil
  then show ?case by simp
next
  case (Cons p ps)
  let ?para = "strip p"
  show ?case
  proof (cases "?para = []")
    case True
    then have "cur \<noteq> [] \<or> (\<exists>p \<in> set ps. strip p \<noteq> [])" using Cons.prems by auto
    then show ?thesis using True Cons.IH[of cur chunks] by simp
  next
    case ne: False
    show ?thesis
    proof (cases "length cur + length ?para > b")
      case over: True
      show ?thesis
      proof (cases "length ?para > b")
        case True
        let ?r = "words_loop b src (split_ws ?para) (flush chunks cur src) []"
        have "split_ws ?para \<noteq> []" using ne strip_Nil_iff[of p] split_ws_strip[of p] by simp
        then have n: "snd ?r \<noteq> []" using words_loop_buffer by blast
        have "paragraphs_loop b src (p # ps) chunks cur = paragraphs_loop b src ps (fst ?r) (snd ?r)"
          using ne over True by (simp add: Let_def split_beta)
        then show ?thesis using Cons.IH[of "snd ?r" "fst ?r"] n by simp
      next
        case False
        have "paragraphs_loop b src (p # ps) chunks cur
            = paragraphs_loop b src ps (flush chunks cur src) (?para @ [10, 10])"
          using ne over False by (simp add: Let_def)
        then show ?thesis using Cons.IH[of "?para @ [10, 10]" "flush chunks cur src"] by simp
      qed
    next
      case False
      have "paragraphs_loop b src (p # ps) chunks cur
            = paragraphs_loop b src ps chunks (cur @ ?para @ [10, 10])"
        using ne False by (simp add: Let_def)
      then show ?thesis using Cons.IH[of "cur @ ?para @ [10, 10]" chunks] by simp
    qed
  qed
qed

lemma buffer_ok_strip: "buffer_ok b cur \<Longrightarrow> cur \<noteq> [] \<Longrightarrow> strip cur \<noteq> []"
  using strip_hd[of cur] by (auto simp: buffer_ok_def within_budget_def)

lemma chunk_text_flush:
  assumes "strip t \<noteq> []"
  shows "strip (snd (paragraphs_loop (chunk_size self) src (split_paragraphs (strip t)) [] [])) \<noteq> []
         \<and> chunk_text self t src =
             fst (paragraphs_loop (chunk_size self) src (split_paragraphs (strip t)) [] [])
             @ [make_chunk
                  (snd (paragraphs_loop (chunk_size self) src (split_paragraphs (strip t)) [] []))
                  src]"
proof -
  let ?ps = "split_paragraphs (strip t)"
  let ?r = "paragraphs_loop (chunk_size self) src ?ps [] []"
  have "concat (map split_ws ?ps) \<noteq> []"
    using assms strip_Nil_iff[of t] by (simp add: split_paragraphs_words split_ws_strip)
  then obtain p where p: "p \<in> set ?ps" "split_ws p \<noteq> []" by auto
  then have "\<exists>p \<in> set ?ps. strip p \<noteq> []" using strip_Nil_iff by blast
  then have n: "snd ?r \<noteq> []" using paragraphs_loop_buffer by blast
  have e: "buffer_ok (chunk_size self) []" by (simp add: buffer_ok_def)
  have "buffer_ok (chunk_size self) (snd ?r)"
    using paragraphs_loop_ok[OF e, of "[]" src ?ps] by simp
  then have s: "strip (snd ?r) \<noteq> []" using n by (rule buffer_ok_strip)
  then show ?thesis using assms by (simp add: chunk_text_def Let_def split_beta)
qed

text \<open>
  Claim C4. For every text and source label, every chunk of \<^verbatim>\<open>chunk_text\<close> is non-empty,
  carries the source label, and is at most \<open>chunk_size\<close> characters long unless it is a
  single word of the text, free of whitespace, that is longer than that alone. A text that
  is empty or whitespace yields no chunk. For any other text the buffer left by the loop
  is not blank and is flushed as the final chunk. The loader's \<open>chunk_size\<close> is 1000.
\<close>

theorem chunk_text_budget:
  "(\<forall>c \<in> set (chunk_text self t src).
      chunk_content c \<noteq> [] \<and>
      (length (chunk_content c) \<le> chunk_size self \<or>
       ((\<forall>x \<in> set (chunk_content c). \<not> isspace x) \<and> chunk_content c \<in> set (split_ws t))) \<and>
      chunk_metadata c = [ascii ''source'' \<mapsto> src]) \<and>
   (strip t = [] \<longrightarrow> chunk_text self t src = []) \<and>
   (strip t \<noteq> [] \<longrightarrow>
      strip (snd (paragraphs_loop (chunk_size self) src (split_paragraphs (strip t)) [] [])) \<noteq> [] \<and>
      chunk_text self t src =
        fst (paragraphs_loop (chunk_size self) src (split_paragraphs (strip t)) [] [])
        @ [make_chunk
             (snd (paragraphs_loop (chunk_size self) src (split_paragraphs (strip t)) [] []))
             src]) \<and>
   chunk_size KnowledgeLoader_init = 1000"
proof (intro conjI ballI impI)
  fix c assume c: "c \<in> set (chunk_text self t src)"
  then have ok: "chunk_ok (chunk_size self) src c" using chunk_text_ok by blast
  then show "chunk_content c \<noteq> []" by (simp add: chunk_ok_def within_budget_def)
  show "chunk_metadata c = [ascii ''source'' \<mapsto> src]" using ok by (simp add: chunk_ok_def)
  show "length (chunk_content c) \<le> chunk_size self \<or>
       ((\<forall>x \<in> set (chunk_content c). \<not> isspace x) \<and> chunk_content c \<in> set (split_ws t))"
  proof (cases "length (chunk_content c) \<le> chunk_size self")
    case True
    then show ?thesis by simp
  next
    case False
    then have "chunk_content c \<in> set (split_ws t)"
      using oversize_chunk_is_word[OF c] by simp
    moreover have "\<forall>x \<in> set (chunk_content c). \<not> isspace x"
      using ok False by (auto simp: chunk_ok_def within_budget_def)
    ultimately show ?thesis by simp
  qed
next
  assume "strip t = []"
  then show "chunk_text self t src = []" by (simp add: chunk_text_def)
next
  assume n: "strip t \<noteq> []"
  show "strip (snd (paragraphs_loop (chunk_size self) src (split_paragraphs (strip t)) [] [])) \<noteq> []"
    using chunk_text_flush[OF n] by blast
  show "chunk_text self t src =
        fst (paragraphs_loop (chunk_size self) src (split_paragraphs (strip t)) [] [])
        @ [make_chunk
             (snd (paragraphs_loop (chunk_size self) src (split_paragraphs (strip t)) [] []))
             src]"
    using chunk_text_flush[OF n] by blast
next
  show "chunk_size KnowledgeLoader_init = 1000" by (simp add: KnowledgeLoader_init_def)
qed

text \<open>
  Claim C8, as amended. Splitting each chunk on whitespace and putting the words of the
  chunks one after the other, in the order of the chunks, gives exactly the words of the
  text in their order: no word is dropped, duplicated, split or moved.
\<close>

theorem chunk_text_preserves_words:
  "concat (map (\<lambda>c. split_ws (chunk_content c)) (chunk_text self t src)) = split_ws t"
  using chunk_text_words[of self t src] by (simp add: words_of_def)

lemma para_facts:
  "length para_a = 600" "length para_b = 600" "length long_word = 1001"
  "para_a \<noteq> []" "para_b \<noteq> []" "long_word \<noteq> []"
  "\<forall>c \<in> set para_a. \<not> isspace c" "\<forall>c \<in> set para_b. \<not> isspace c"
  "\<forall>c \<in> set long_word. \<not> isspace c"
  "10 \<notin> set para_a" "10 \<notin> set para_b" "10 \<notin> set long_word"
  by (auto simp: para_a_def para_b_def long_word_def isspace_def)

lemma strip_word:
  assumes "w \<noteq> []" "\<forall>c \<in> set w. \<not> isspace c"
  shows "strip w = w" "strip (w @ [10, 10]) = w" "strip (w @ [32]) = w"
proof -
  note e = word_ends[OF assms]
  have "rstrip ([] @ w @ []) = [] @ w" using e(2) assms(1) by (intro rstrip_append_ws) simp_all
  then show "strip w = w" using strip_hd[OF assms(1) e(1)] by simp
  have "rstrip ([] @ w @ [10, 10]) = [] @ w"
    using e(2) assms(1) by (intro rstrip_append_ws) (simp_all add: space_chars)
  moreover have "strip (w @ [10, 10]) = rstrip (w @ [10, 10])"
    using assms(1) e(1) by (intro strip_hd) simp_all
  ultimately show "strip (w @ [10, 10]) = w" by simp
  have "rstrip ([] @ w @ [32]) = [] @ w"
    using e(2) assms(1) by (intro rstrip_append_ws) (simp_all add: space_chars)
  moreover have "strip (w @ [32]) = rstrip (w @ [32])"
    using assms(1) e(1) by (intro strip_hd) simp_all
  ultimately show "strip (w @ [32]) = w" by simp
qed

lemma split_paragraphs_plain: "10 \<notin> set s \<Longrightarrow> split_paragraphs s = [s]"
  by (induction s rule: split_paragraphs.induct) auto

lemma split_paragraphs_two:
  "10 \<notin> set a \<Longrightarrow> split_paragraphs (a @ 10 # 10 # b) = a # split_paragraphs b"
proof (induction a)
  case Nil
  then show ?case by simp
next
  case (Cons c a)
  then have ih: "split_paragraphs (a @ 10 # 10 # b) = a # split_paragraphs b" and c: "c \<noteq> 10"
    by auto
  obtain d rest where d: "a @ 10 # 10 # b = d # rest" by (cases "a @ 10 # 10 # b") auto
  have "split_paragraphs (c # d # rest) = (c # a) # split_paragraphs b"
    using c ih unfolding d by simp
  then show ?case using d by simp
qed

lemma two_paragraphs_strip: "strip two_paragraphs = two_paragraphs"
proof -
  have h: "two_paragraphs \<noteq> []" "\<not> isspace (hd two_paragraphs)"
    using para_facts word_ends(1)[of para_a] by (simp_all add: two_paragraphs_def)
  have "rstrip ((para_a @ [10, 10]) @ para_b @ []) = (para_a @ [10, 10]) @ para_b"
    using para_facts word_ends(2)[of para_b] by (intro rstrip_append_ws) simp_all
  then show ?thesis using strip_hd[OF h] by (simp add: two_paragraphs_def)
qed

lemma two_paragraphs_split: "split_paragraphs two_paragraphs = [para_a, para_b]"
  using split_paragraphs_two[of para_a para_b] split_paragraphs_plain[of para_b] para_facts
  by (simp add: two_paragraphs_def)

lemma two_paragraphs_chunks:
  "chunk_text KnowledgeLoader_init two_paragraphs src =
     [\<lparr>chunk_content = para_a, chunk_metadata = [ascii ''source'' \<mapsto> src]\<rparr>,
      \<lparr>chunk_content = para_b, chunk_metadata = [ascii ''source'' \<mapsto> src]\<rparr>]"
proof -
  have s: "strip para_a = para_a" "strip para_b = para_b"
    "strip (para_a @ [10, 10]) = para_a" "strip (para_b @ [10, 10]) = para_b"
    using strip_word[of para_a] strip_word[of para_b] para_facts by simp_all
  have pl: "paragraphs_loop 1000 src [para_a, para_b] [] [] =
      ([make_chunk (para_a @ [10, 10]) src], para_b @ [10, 10])"
    using para_facts by (simp add: s Let_def flush_def)
  have ne: "two_paragraphs \<noteq> []" using para_facts by (simp add: two_paragraphs_def)
  have sz: "chunk_size KnowledgeLoader_init = 1000" by (simp add: KnowledgeLoader_init_def)
  have "chunk_text KnowledgeLoader_init two_paragraphs src =
      (let (chunks, cur) = paragraphs_loop 1000 src [para_a, para_b] [] []
       in if strip cur \<noteq> [] then chunks @ [make_chunk cur src] else chunks)"
    using ne
    by (simp add: chunk_text_def two_paragraphs_strip two_paragraphs_split sz
        del: paragraphs_loop.simps)
  then show ?thesis
    using para_facts(4,5) by (simp add: pl s make_chunk_def del: paragraphs_loop.simps)
qed

lemma long_word_chunks:
  "chunk_text KnowledgeLoader_init long_word src =
     [\<lparr>chunk_content = long_word, chunk_metadata = [ascii ''source'' \<mapsto> src]\<rparr>]"
proof -
  have s: "strip long_word = long_word" "strip (long_word @ [32]) = long_word"
    using strip_word[of long_word] para_facts by simp_all
  have w: "split_ws long_word = [long_word]" using split_ws_word[of long_word] para_facts by simp
  have pl: "paragraphs_loop 1000 src [long_word] [] [] = ([], long_word @ [32])"
    using para_facts by (simp add: s w Let_def flush_def)
  have sz: "chunk_size KnowledgeLoader_init = 1000" by (simp add: KnowledgeLoader_init_def)
  have sp: "split_paragraphs long_word = [long_word]"
    using para_facts by (simp add: split_paragraphs_plain)
  have "chunk_text KnowledgeLoader_init long_word src =
      (let (chunks, cur) = paragraphs_loop 1000 src [long_word] [] []
       in if strip cur \<noteq> [] then chunks @ [make_chunk cur src] else chunks)"
    using para_facts(6) by (simp add: chunk_text_def s sp sz del: paragraphs_loop.simps)
  then show ?thesis
    using para_facts(6) by (simp add: pl s make_chunk_def del: paragraphs_loop.simps)
qed

lemma blank_chunks: "chunk_text KnowledgeLoader_init [32, 10, 10, 9] src = []"
  by (simp add: chunk_text_def strip_def rstrip_def isspace_def)

theorem chunk_text_budget_witness:
  "chunk_text KnowledgeLoader_init [32, 10, 10, 9] doc_label = [] \<and>
   map chunk_content (chunk_text KnowledgeLoader_init two_paragraphs doc_label) = [para_a, para_b] \<and>
   length para_a \<le> 1000 \<and> length para_b \<le> 1000 \<and>
   map chunk_content (chunk_text KnowledgeLoader_init long_word doc_label) = [long_word] \<and>
   length long_word = 1001 \<and> long_word \<in> set (split_ws long_word)"
proof -
  note th = chunk_text_budget[of KnowledgeLoader_init _ doc_label]
  have 1: "chunk_text KnowledgeLoader_init [32, 10, 10, 9] doc_label = []"
    using th[of "[32, 10, 10, 9]", THEN conjunct2, THEN conjunct1]
    by (simp add: strip_def rstrip_def isspace_def)
  have 2: "map chunk_content (chunk_text KnowledgeLoader_init two_paragraphs doc_label)
      = [para_a, para_b]"
    by (simp add: two_paragraphs_chunks)
  have sz: "chunk_size KnowledgeLoader_init = 1000" by (simp add: KnowledgeLoader_init_def)
  have 3: "length para_a \<le> 1000 \<and> length para_b \<le> 1000"
    by (simp add: para_facts)
  have 4: "map chunk_content (chunk_text KnowledgeLoader_init long_word doc_label) = [long_word]"
    by (simp add: long_word_chunks)
  have 5: "long_word \<in> set (split_ws long_word)"
    using th[of long_word, THEN conjunct1] para_facts(3)
    unfolding long_word_chunks sz by simp
  show ?thesis using 1 2 3 4 5 para_facts(3) by blast
qed

text \<open>
  Claim C8 as stated fails: the chunks are stripped, so joining them with nothing in
  between glues the last word of a chunk to the first word of the next. The document of
  two paragraphs of 600 letters yields two chunks; their concatenation is one word of
  1200 letters, while the text has two words.
\<close>

theorem chunk_text_concatenation_counterexample:
  "map chunk_content (chunk_text KnowledgeLoader_init two_paragraphs doc_label) = [para_a, para_b] \<and>
   split_ws (concat (map chunk_content (chunk_text KnowledgeLoader_init two_paragraphs doc_label)))
     = [para_a @ para_b] \<and>
   split_ws two_paragraphs = [para_a, para_b] \<and>
   split_ws (concat (map chunk_content (chunk_text KnowledgeLoader_init two_paragraphs doc_label)))
     \<noteq> split_ws two_paragraphs"
proof -
  have 1: "map chunk_content (chunk_text KnowledgeLoader_init two_paragraphs doc_label)
      = [para_a, para_b]"
    by (simp add: two_paragraphs_chunks)
  have 2: "split_ws (para_a @ para_b) = [para_a @ para_b]"
    using para_facts by (intro split_ws_word) auto
  have 3: "split_ws two_paragraphs = [para_a, para_b]"
    using chunk_text_words[of KnowledgeLoader_init two_paragraphs doc_label]
      split_ws_word[of para_a] split_ws_word[of para_b] para_facts
    by (simp add: two_paragraphs_chunks words_of_def)
  show ?thesis unfolding 1 3 using 2 by simp
qed

end
